theory Spec2Isabelle
  imports Main "HOL-Library.Word"
begin

unbundle bit_operations_syntax

text \<open>
  A model of the runtime patching support of megaton (the exlaunch sources under
  \<^verbatim>\<open>runtime/src/exlaunch\<close> and the panic formatting under \<^verbatim>\<open>runtime/src/cimpl\<close>):
  the lookup of the process handle, the read-write mirror of a code range with the walk
  over the memory blocks behind it, the SoC classification, the build-time checks of
  the pool sizes and the formatting of panic messages. Each source function is a
  function of the same name here; state is passed explicitly, a panic is a result, and
  the operating system is a parameter.
\<close>

section \<open>Machine types and alignment macros\<close>

text \<open>
  The target is AArch64: \<open>uintptr_t\<close>, \<open>size_t\<close> and \<open>u64\<close> are 64-bit unsigned
  integers, \<open>u32\<close>, \<open>Handle\<close> and \<open>Result\<close> are 32-bit. Arithmetic wraps around.
\<close>

type_synonym uintptr_t = "64 word"
type_synonym size_t = "64 word"
type_synonym u64 = "64 word"
type_synonym u32 = "32 word"
type_synonym Handle = "32 word"
type_synonym Result = "32 word"

text \<open>\<^verbatim>\<open>#define PAGE_SIZE (0x1000)\<close>\<close>

definition PAGE_SIZE :: uintptr_t where
  "PAGE_SIZE = 0x1000"

text \<open>\<^verbatim>\<open>#define ALIGN_UP(x, a) ((((uintptr_t)x) + (((uintptr_t)a)-1)) & ~(((uintptr_t)a)-1))\<close>\<close>

definition ALIGN_UP :: "uintptr_t \<Rightarrow> uintptr_t \<Rightarrow> uintptr_t" where
  "ALIGN_UP x a = (x + (a - 1)) AND NOT (a - 1)"

text \<open>\<^verbatim>\<open>#define ALIGN_DOWN(x, a) ((uintptr_t)(x) & ~(((uintptr_t)(a)) - 1))\<close>\<close>

definition ALIGN_DOWN :: "uintptr_t \<Rightarrow> uintptr_t \<Rightarrow> uintptr_t" where
  "ALIGN_DOWN x a = x AND NOT (a - 1)"

section \<open>Build-time settings: \<^verbatim>\<open>usersetting.hpp\<close>\<close>

text \<open>
  The two \<open>static_assert\<close>s of namespace \<open>exl::setting\<close>, as predicates of the configured
  constants. The second one compares the rounded \<open>InlinePoolSize\<close> with \<open>JitSize\<close>, as the
  source does.
\<close>

definition JitSize_assert :: "size_t \<Rightarrow> bool" where
  "JitSize_assert JitSize \<longleftrightarrow> ALIGN_UP JitSize PAGE_SIZE = JitSize"

definition InlinePoolSize_assert :: "size_t \<Rightarrow> size_t \<Rightarrow> bool" where
  "InlinePoolSize_assert JitSize InlinePoolSize \<longleftrightarrow> ALIGN_UP InlinePoolSize PAGE_SIZE = JitSize"

definition setting_sanity_checks :: "size_t \<Rightarrow> size_t \<Rightarrow> bool" where
  "setting_sanity_checks JitSize InlinePoolSize \<longleftrightarrow>
     JitSize_assert JitSize \<and> InlinePoolSize_assert JitSize InlinePoolSize"

section \<open>The environment: kernel and runtime library calls\<close>

text \<open>
  The kernel (\<open>svc*\<close>), the virtual-memory allocator (\<open>virtmem*\<close>), the cache maintenance
  routines (\<open>arm*\<close>) and the secure monitor (\<open>smcGetConfig\<close>) are not part of this
  repository. Every call the code makes to them is recorded, with its arguments and its
  answer, as an \<open>event\<close>; the state of the program is the list of the events so far
  together with the two global variables \<open>s_Handle\<close> and \<open>s_SocType\<close>. The environment
  is a parameter: a record of functions that give the answer of each call from the events
  so far and the arguments.
\<close>

text \<open>
  The two fields of libnx's \<open>MemoryInfo\<close> that the code reads: \<open>addr\<close> and \<open>size\<close>.
  An event lists the arguments of its call in the order of the source and then what the
  call returned: \<open>EvQueryMemory address rc meminfo\<close>,
  \<open>EvMapProcessMemory rw process ro size rc\<close>, \<open>EvFindAslr size guard address\<close>,
  \<open>EvAddReservation address size reservation\<close>, \<open>EvGetInfo type handle subtype rc value\<close>,
  \<open>EvCreateSession rc server client\<close>, \<open>EvCreateThread argument rc thread\<close>,
  \<open>EvReplyAndReceive session rc word3\<close> (word 3 of the thread-local buffer after the
  call), \<open>EvGetConfig item rc value\<close>. \<open>memory\<close> is the content of the process's
  address space after the events so far.
\<close>

record MemoryInfo =
  addr :: u64
  size' :: u64

datatype event =
    EvQueryMemory u64 Result MemoryInfo
  | EvMapProcessMemory u64 Handle u64 u64 Result
  | EvUnmapProcessMemory u64 Handle u64 u64 Result
  | EvFindAslr size_t size_t uintptr_t
  | EvAddReservation uintptr_t size_t u64
  | EvRemoveReservation u64
  | EvDCacheFlush uintptr_t size_t
  | EvICacheInvalidate uintptr_t size_t
  | EvGetInfo u32 Handle u64 Result u64
  | EvCreateSession Result Handle Handle
  | EvCreateThread Handle Result Handle
  | EvStartThread Handle Result
  | EvSendSyncRequest Handle Result
  | EvReplyAndReceive Handle Result u32
  | EvCloseHandle Handle
  | EvExitThread
  | EvWaitSynchronizationSingle Handle Result
  | EvGetConfig u32 Result u64

record kernel =
  svcQueryMemory :: "event list \<Rightarrow> u64 \<Rightarrow> Result \<times> MemoryInfo"
  svcMapProcessMemory :: "event list \<Rightarrow> u64 \<Rightarrow> Handle \<Rightarrow> u64 \<Rightarrow> u64 \<Rightarrow> Result"
  svcUnmapProcessMemory :: "event list \<Rightarrow> u64 \<Rightarrow> Handle \<Rightarrow> u64 \<Rightarrow> u64 \<Rightarrow> Result"
  virtmemFindAslr :: "event list \<Rightarrow> size_t \<Rightarrow> size_t \<Rightarrow> uintptr_t"
  virtmemAddReservation :: "event list \<Rightarrow> uintptr_t \<Rightarrow> size_t \<Rightarrow> u64"
  svcGetInfo :: "event list \<Rightarrow> u32 \<Rightarrow> Handle \<Rightarrow> u64 \<Rightarrow> Result \<times> u64"
  svcCreateSession :: "event list \<Rightarrow> Result \<times> Handle \<times> Handle"
  svcCreateThread :: "event list \<Rightarrow> Handle \<Rightarrow> Result \<times> Handle"
  svcStartThread :: "event list \<Rightarrow> Handle \<Rightarrow> Result"
  svcSendSyncRequest :: "event list \<Rightarrow> Handle \<Rightarrow> Result"
  svcReplyAndReceive :: "event list \<Rightarrow> Handle \<Rightarrow> Result \<times> u32"
  svcWaitSynchronizationSingle :: "event list \<Rightarrow> Handle \<Rightarrow> Result"
  smcGetConfig :: "event list \<Rightarrow> u32 \<Rightarrow> Result \<times> u64"
  memory :: "event list \<Rightarrow> u64 \<Rightarrow> 8 word"

datatype SocType = Erista | Mariko

record world =
  trace :: "event list"
  s_Handle :: Handle
  s_SocType :: SocType

text \<open>
  \<open>megaton_panic\<close> never returns: a panic ends the run. \<open>Panic msg w\<close> keeps the message
  given to \<open>panic_\<close> and the state at that moment.
\<close>

datatype error = Panic string world

definition emit :: "event \<Rightarrow> world \<Rightarrow> world" where
  "emit e w = w\<lparr>trace := trace w @ [e]\<rparr>"

definition R_FAILED :: "Result \<Rightarrow> bool" where
  "R_FAILED rc \<longleftrightarrow> rc \<noteq> 0"

definition R_SUCCEEDED :: "Result \<Rightarrow> bool" where
  "R_SUCCEEDED rc \<longleftrightarrow> rc = 0"

definition INVALID_HANDLE :: Handle where
  "INVALID_HANDLE = 0"

definition InfoType_MesosphereCurrentProcess :: u32 where
  "InfoType_MesosphereCurrentProcess = 65001"

section \<open>The process handle: \<^verbatim>\<open>cur_proc_handle.cpp\<close>\<close>

text \<open>
  \<open>GetViaMesosphere\<close>: \<open>R_TRY\<close> returns the result code of a failed \<open>svcGetInfo\<close>; on
  success the 64-bit value is stored in the 32-bit \<open>s_Handle\<close>.
\<close>

definition GetViaMesosphere :: "kernel \<Rightarrow> world \<Rightarrow> Result \<times> world" where
  "GetViaMesosphere K w =
     (let (rc, handle) = svcGetInfo K (trace w) InfoType_MesosphereCurrentProcess INVALID_HANDLE 0;
          w1 = emit (EvGetInfo InfoType_MesosphereCurrentProcess INVALID_HANDLE 0 rc handle) w
      in if R_FAILED rc then (rc, w1) else (0, w1\<lparr>s_Handle := ucast handle\<rparr>))"

text \<open>
  The worker thread of the fallback: it receives the request, takes the handle from word 3
  of its thread-local buffer, closes the session and exits.
\<close>

definition ReceiveProcessHandleThreadMain :: "kernel \<Rightarrow> Handle \<Rightarrow> world \<Rightarrow> error + world" where
  "ReceiveProcessHandleThreadMain K session_handle w =
     (let (rc, tls3) = svcReplyAndReceive K (trace w) session_handle;
          w1 = emit (EvReplyAndReceive session_handle rc tls3) w
      in if R_FAILED rc then Inl (Panic ''svcReplyAndReceive failed.'' w1)
         else Inr (emit EvExitThread (emit (EvCloseHandle session_handle) (w1\<lparr>s_Handle := tls3\<rparr>))))"

text \<open>
  \<open>GetViaIpcTrick\<close>. The worker runs while the requester is blocked in
  \<open>svcSendSyncRequest\<close>; the model runs the two threads in that order. The result of
  \<open>svcSendSyncRequest\<close> is not checked by the source.
\<close>

definition GetViaIpcTrick :: "kernel \<Rightarrow> world \<Rightarrow> error + world" where
  "GetViaIpcTrick K w =
     (let (rc, server_handle, client_handle) = svcCreateSession K (trace w);
          w1 = emit (EvCreateSession rc server_handle client_handle) w
      in if R_FAILED rc then Inl (Panic ''svcCreateSession failed.'' w1)
         else
          let (rc2, thread_handle) = svcCreateThread K (trace w1) server_handle;
              w2 = emit (EvCreateThread server_handle rc2 thread_handle) w1
          in if R_FAILED rc2 then Inl (Panic ''svcCreateThread failed.'' w2)
             else
              let rc3 = svcStartThread K (trace w2) thread_handle;
                  w3 = emit (EvStartThread thread_handle rc3) w2
              in if R_FAILED rc3 then Inl (Panic ''svcStartThread failed.'' w3)
                 else
                  let w4 = emit (EvSendSyncRequest client_handle
                                   (svcSendSyncRequest K (trace w3) client_handle)) w3
                  in case ReceiveProcessHandleThreadMain K server_handle w4 of
                       Inl e \<Rightarrow> Inl e
                     | Inr w5 \<Rightarrow>
                         let w6 = emit (EvCloseHandle client_handle) w5;
                             rc4 = svcWaitSynchronizationSingle K (trace w6) thread_handle;
                             w7 = emit (EvWaitSynchronizationSingle thread_handle rc4) w6
                         in if R_FAILED rc4
                            then Inl (Panic ''svcWaitSynchronizationSingle failed.'' w7)
                            else Inr (emit (EvCloseHandle thread_handle) w7))"

text \<open>\<open>proc_handle::Get\<close>\<close>

definition Get :: "kernel \<Rightarrow> world \<Rightarrow> error + Handle \<times> world" where
  "Get K w =
     (if s_Handle w = INVALID_HANDLE then
        (let (r, w1) = GetViaMesosphere K w
         in if R_FAILED r then
              (case GetViaIpcTrick K w1 of
                 Inl e \<Rightarrow> Inl e
               | Inr w2 \<Rightarrow> Inr (s_Handle w2, w2))
            else Inr (s_Handle w1, w1))
      else Inr (s_Handle w, w))"

section \<open>The region mirror: \<^verbatim>\<open>rw_pages.cpp\<close>\<close>

text \<open>
  Modelled from the spec: the header \<open>rw_pages.hpp\<close>, which declares the class, its
  \<open>Claim\<close> with the three accessors \<open>GetAlignedRo\<close>, \<open>GetAlignedRw\<close> and
  \<open>GetAlignedSize\<close>, and the \<open>m_Owner\<close> flag, is not among the sources. The fields are
  those the two source files use. The spec gives \<open>aligned_ro\<close> and \<open>aligned_rw\<close> as the
  page-aligned bases and \<open>aligned_size\<close> as the page-aligned span covering the requested
  range; the rounding is done with the macros \<open>ALIGN_DOWN\<close> and \<open>ALIGN_UP\<close> of the
  sources.
\<close>

record Claim =
  m_Ro :: uintptr_t
  m_Rw :: uintptr_t
  m_Size :: size_t
  m_RwReserve :: u64

record RwPages =
  m_Owner :: bool
  m_Claim :: Claim

definition GetAlignedRo :: "Claim \<Rightarrow> uintptr_t" where
  "GetAlignedRo c = ALIGN_DOWN (m_Ro c) PAGE_SIZE"

definition GetAlignedRw :: "Claim \<Rightarrow> uintptr_t" where
  "GetAlignedRw c = ALIGN_DOWN (m_Rw c) PAGE_SIZE"

definition GetAlignedSize :: "Claim \<Rightarrow> size_t" where
  "GetAlignedSize c = ALIGN_UP (m_Size c + (m_Ro c - GetAlignedRo c)) PAGE_SIZE"

text \<open>
  \<open>ForEachMemRange\<close>. The \<open>do ... while\<close> loop may run forever (nothing in the code bounds
  the number of blocks the kernel reports), so the loop is a partial function: \<open>None\<close> is
  a run that does not return. \<open>meminfo\<close> is the block of the previous iteration; the first
  query is made with \<open>addr = start_address\<close> and \<open>size = 0\<close>.
\<close>

type_synonym callback = "uintptr_t \<Rightarrow> uintptr_t \<Rightarrow> uintptr_t \<Rightarrow> world \<Rightarrow> error + world"

partial_function (option) ForEachMemRange_loop ::
  "kernel \<Rightarrow> callback \<Rightarrow> uintptr_t \<Rightarrow> uintptr_t \<Rightarrow> MemoryInfo \<Rightarrow> world \<Rightarrow> (error + world) option"
where
  "ForEachMemRange_loop K callback start_address end_address meminfo w =
     (let (rc, meminfo') = svcQueryMemory K (trace w) (addr meminfo + size' meminfo);
          w1 = emit (EvQueryMemory (addr meminfo + size' meminfo) rc meminfo') w
      in if R_FAILED rc then Some (Inl (Panic ''svcQueryMemory failed.'' w1))
         else
          let offset = max (addr meminfo') start_address - start_address;
              current_address = start_address + offset;
              current_length = min end_address (addr meminfo' + size' meminfo') - current_address
          in case callback current_address current_length offset w1 of
               Inl e \<Rightarrow> Some (Inl e)
             | Inr w2 \<Rightarrow>
                 if addr meminfo' + size' meminfo' < end_address
                 then ForEachMemRange_loop K callback start_address end_address meminfo' w2
                 else Some (Inr w2))"

definition ForEachMemRange ::
  "kernel \<Rightarrow> callback \<Rightarrow> uintptr_t \<Rightarrow> size_t \<Rightarrow> world \<Rightarrow> (error + world) option"
where
  "ForEachMemRange K callback start_address length' w =
     ForEachMemRange_loop K callback start_address (start_address + length')
       \<lparr>addr = start_address, size' = 0\<rparr> w"

text \<open>The two lambdas given to \<open>ForEachMemRange\<close> by the constructor and the destructor.\<close>

definition map_callback :: "kernel \<Rightarrow> uintptr_t \<Rightarrow> Handle \<Rightarrow> callback" where
  "map_callback K alignedRw procHandle address sz offset w =
     (let rw = alignedRw + offset;
          ro = address;
          rc = svcMapProcessMemory K (trace w) rw procHandle ro sz;
          w1 = emit (EvMapProcessMemory rw procHandle ro sz rc) w
      in if R_FAILED rc then Inl (Panic ''svcMapProcessMemory failed.'' w1) else Inr w1)"

definition unmap_callback :: "kernel \<Rightarrow> Claim \<Rightarrow> Handle \<Rightarrow> callback" where
  "unmap_callback K claim procHandle address sz offset w =
     (let rw = GetAlignedRw claim + offset;
          ro = address;
          rc = svcUnmapProcessMemory K (trace w) rw procHandle ro sz;
          w1 = emit (EvUnmapProcessMemory rw procHandle ro sz rc) w
      in if R_FAILED rc then Inl (Panic ''svcUnmapProcessMemory failed.'' w1) else Inr w1)"

text \<open>
  \<open>memcmp\<close> over the process memory: the sign of the first difference, 0 when the two
  ranges hold the same bytes.
\<close>

fun memcmp_bytes :: "8 word list \<Rightarrow> 8 word list \<Rightarrow> int" where
  "memcmp_bytes (x # xs) (y # ys) =
     (if x = y then memcmp_bytes xs ys else if x < y then - 1 else 1)"
| "memcmp_bytes _ _ = 0"

definition bytes_at :: "(u64 \<Rightarrow> 8 word) \<Rightarrow> u64 \<Rightarrow> size_t \<Rightarrow> 8 word list" where
  "bytes_at mem a n = map (\<lambda>k. mem (a + of_nat k)) [0..<unat n]"

definition memcmp :: "(u64 \<Rightarrow> 8 word) \<Rightarrow> u64 \<Rightarrow> u64 \<Rightarrow> size_t \<Rightarrow> int" where
  "memcmp mem a b n = memcmp_bytes (bytes_at mem a n) (bytes_at mem b n)"

text \<open>
  The constructor \<open>RwPages::RwPages(ro, size)\<close>. The object it builds is the owner
  (the spec: \<open>is_owner\<close> is true only for the claim instance that performed the mapping).
\<close>

definition RwPages_ctor ::
  "kernel \<Rightarrow> uintptr_t \<Rightarrow> size_t \<Rightarrow> world \<Rightarrow> (error + RwPages \<times> world) option"
where
  "RwPages_ctor K ro sz w =
     (let claim = \<lparr>m_Ro = ro, m_Rw = 0, m_Size = sz, m_RwReserve = 0\<rparr>;
          alignedRw = virtmemFindAslr K (trace w) (GetAlignedSize claim) 0;
          w1 = emit (EvFindAslr (GetAlignedSize claim) 0 alignedRw) w
      in if alignedRw = 0 then Some (Inl (Panic ''Assertion failed: alignedRw != 0'' w1))
         else
          let reserve = virtmemAddReservation K (trace w1) alignedRw (GetAlignedSize claim);
              w2 = emit (EvAddReservation alignedRw (GetAlignedSize claim) reserve) w1
          in if reserve = 0 then Some (Inl (Panic ''Assertion failed: reserve != NULL'' w2))
             else
              let claim1 = claim\<lparr>m_RwReserve := reserve\<rparr>
              in case Get K w2 of
                   Inl e \<Rightarrow> Some (Inl e)
                 | Inr (procHandle, w3) \<Rightarrow>
                     (case ForEachMemRange K (map_callback K alignedRw procHandle)
                             (GetAlignedRo claim1) (GetAlignedSize claim1) w3 of
                        None \<Rightarrow> None
                      | Some (Inl e) \<Rightarrow> Some (Inl e)
                      | Some (Inr w4) \<Rightarrow>
                          let claim2 = claim1\<lparr>m_Rw := alignedRw + (ro - GetAlignedRo claim1)\<rparr>
                          in if memcmp (memory K (trace w4)) (m_Ro claim2) (m_Rw claim2) sz = 0
                             then Some (Inr (\<lparr>m_Owner = True, m_Claim = claim2\<rparr>, w4))
                             else Some (Inl (Panic
                               ''Assertion failed: memcmp((void*)claim.m_Ro, (void*)claim.m_Rw, size) == 0''
                               w4))))"

text \<open>\<open>RwPages::Flush\<close>\<close>

definition Flush :: "RwPages \<Rightarrow> world \<Rightarrow> world" where
  "Flush this w =
     (let claim = m_Claim this
      in emit (EvICacheInvalidate (GetAlignedRw claim) (GetAlignedSize claim))
           (emit (EvDCacheFlush (GetAlignedRw claim) (GetAlignedSize claim)) w))"

text \<open>The destructor \<open>RwPages::~RwPages\<close>\<close>

definition RwPages_dtor :: "kernel \<Rightarrow> RwPages \<Rightarrow> world \<Rightarrow> (error + world) option" where
  "RwPages_dtor K this w =
     (if \<not> m_Owner this then Some (Inr w)
      else
       let claim = m_Claim this;
           w1 = emit (EvDCacheFlush (m_Rw claim) (m_Size claim)) w;
           w2 = emit (EvICacheInvalidate (m_Ro claim) (m_Size claim)) w1
       in case Get K w2 of
            Inl e \<Rightarrow> Some (Inl e)
          | Inr (procHandle, w3) \<Rightarrow>
              (case ForEachMemRange K (unmap_callback K claim procHandle)
                      (GetAlignedRo claim) (GetAlignedSize claim) w3 of
                 None \<Rightarrow> None
               | Some (Inl e) \<Rightarrow> Some (Inl e)
               | Some (Inr w4) \<Rightarrow> Some (Inr (emit (EvRemoveReservation (m_RwReserve claim)) w4))))"

section \<open>The SoC type: \<^verbatim>\<open>soc.hpp\<close>\<close>

text \<open>
  The enumerators of libnx's \<open>SplHardwareType\<close> and the configuration item
  \<open>SplConfigItem_HardwareType\<close>, with their values in libnx. \<open>smcGetConfig\<close> writes a
  64-bit value; the switch reads the 32-bit enumeration, its low half.
\<close>

type_synonym SplHardwareType = u32

definition SplHardwareType_Icosa :: SplHardwareType where "SplHardwareType_Icosa = 0"
definition SplHardwareType_Copper :: SplHardwareType where "SplHardwareType_Copper = 1"
definition SplHardwareType_Hoag :: SplHardwareType where "SplHardwareType_Hoag = 2"
definition SplHardwareType_Iowa :: SplHardwareType where "SplHardwareType_Iowa = 3"
definition SplHardwareType_Calcio :: SplHardwareType where "SplHardwareType_Calcio = 4"
definition SplHardwareType_Aula :: SplHardwareType where "SplHardwareType_Aula = 5"

definition SplConfigItem_HardwareType :: u32 where "SplConfigItem_HardwareType = 5"

definition InitSocType :: "kernel \<Rightarrow> world \<Rightarrow> error + world" where
  "InitSocType K w =
     (let (rc, v) = smcGetConfig K (trace w) SplConfigItem_HardwareType;
          hwtype = (ucast v :: SplHardwareType);
          w1 = emit (EvGetConfig SplConfigItem_HardwareType rc v) w
      in if \<not> R_SUCCEEDED rc
         then Inl (Panic
           ''Assertion failed: R_SUCCEEDED(smcGetConfig(SplConfigItem_HardwareType, reinterpret_cast<u64*>(&hwtype)))''
           w1)
         else if hwtype = SplHardwareType_Icosa \<or> hwtype = SplHardwareType_Copper
         then Inr (w1\<lparr>s_SocType := Erista\<rparr>)
         else if hwtype = SplHardwareType_Hoag \<or> hwtype = SplHardwareType_Iowa
               \<or> hwtype = SplHardwareType_Calcio \<or> hwtype = SplHardwareType_Aula
         then Inr (w1\<lparr>s_SocType := Mariko\<rparr>)
         else Inl (Panic ''unreachable'' w1))"

definition IsSocErista :: "world \<Rightarrow> bool" where
  "IsSocErista w \<longleftrightarrow> s_SocType w = Erista"

definition IsSocMariko :: "world \<Rightarrow> bool" where
  "IsSocMariko w \<longleftrightarrow> s_SocType w = Mariko"

section \<open>The panic message: \<^verbatim>\<open>assert.cpp\<close>\<close>

text \<open>
  C strings are read up to their first NUL. \<open>%d\<close> prints the 32-bit line number as a
  signed decimal. \<open>snprintf buf n s\<close> stores at most \<open>n - 1\<close> characters of the formatted
  text \<open>s\<close> and a terminating NUL at the start of \<open>buf\<close>.
\<close>

definition NUL :: char where
  "NUL = CHR 0x00"

definition c_str :: "string \<Rightarrow> string" where
  "c_str s = takeWhile (\<lambda>c. c \<noteq> NUL) s"

definition digit_char :: "nat \<Rightarrow> char" where
  "digit_char d = ''0123456789'' ! d"

fun show_nat :: "nat \<Rightarrow> string" where
  "show_nat n = (if n < 10 then [digit_char n] else show_nat (n div 10) @ [digit_char (n mod 10)])"

declare show_nat.simps [simp del]

definition show_int :: "int \<Rightarrow> string" where
  "show_int i = (if i < 0 then CHR ''-'' # show_nat (nat (- i)) else show_nat (nat i))"

definition panic_format :: "string \<Rightarrow> u32 \<Rightarrow> string \<Rightarrow> string" where
  "panic_format file line msg =
     ''Panic at '' @ c_str file @ '':'' @ show_int (sint line) @ [CHR '':'', CHR 0x0A]
       @ ''  '' @ c_str msg"

definition snprintf :: "string \<Rightarrow> nat \<Rightarrow> string \<Rightarrow> string" where
  "snprintf buf n s =
     (if n = 0 then buf
      else let k = min (length s) (n - 1) in take k s @ [NUL] @ drop (k + 1) buf)"

text \<open>
  \<open>megaton_format_panic_message\<close>: the argument \<open>PANIC_FMT_BUFFER\<close> is the static buffer
  before the call, the result is the buffer after it (the function returns its address).
\<close>

definition megaton_format_panic_message :: "string \<Rightarrow> string \<Rightarrow> u32 \<Rightarrow> string \<Rightarrow> string" where
  "megaton_format_panic_message PANIC_FMT_BUFFER file line msg =
     (snprintf PANIC_FMT_BUFFER 1024 (panic_format file line msg))[1024 - 1 := NUL]"

section \<open>A synthetic environment\<close>

text \<open>
  A concrete environment on which the program can be run: the address space is the list
  of blocks \<open>blocks\<close>, a memory query answers with the block that holds the address and
  fails where there is none, every other call succeeds with a fixed answer.
  \<open>mesosphere_rc\<close> is the result of the \<open>svcGetInfo\<close> fast path, \<open>proc_handle\<close> the process
  handle the kernel hands out, \<open>hwtype\<close> the hardware type. Memory holds the low byte of
  each address; an address inside a range mapped by an earlier \<open>svcMapProcessMemory\<close>
  reads the byte of the source address it mirrors.
\<close>

text \<open>A block holds the addresses from \<open>addr\<close> up to, not including, \<open>addr + size\<close>.\<close>

definition holds :: "MemoryInfo \<Rightarrow> u64 \<Rightarrow> bool" where
  "holds b a \<longleftrightarrow> addr b \<le> a \<and> unat a < unat (addr b) + unat (size' b)"

fun mirrored :: "event list \<Rightarrow> u64 \<Rightarrow> u64" where
  "mirrored [] a = a"
| "mirrored (EvMapProcessMemory rw h ro sz rc # t) a =
     (if rc = 0 \<and> rw \<le> a \<and> unat a < unat rw + unat sz then ro + (a - rw) else mirrored t a)"
| "mirrored (_ # t) a = mirrored t a"

definition synthetic_kernel :: "MemoryInfo list \<Rightarrow> Result \<Rightarrow> Handle \<Rightarrow> u64 \<Rightarrow> kernel" where
  "synthetic_kernel blocks mesosphere_rc proc_handle hwtype =
     \<lparr>svcQueryMemory = (\<lambda>t a. case find (\<lambda>b. holds b a) blocks of
                                  Some b \<Rightarrow> (0, b)
                                | None \<Rightarrow> (0xDC01, \<lparr>addr = 0, size' = 0\<rparr>)),
      svcMapProcessMemory = (\<lambda>t rw h ro sz. 0),
      svcUnmapProcessMemory = (\<lambda>t rw h ro sz. 0),
      virtmemFindAslr = (\<lambda>t sz guard. 0x2000000000),
      virtmemAddReservation = (\<lambda>t a sz. 0x10),
      svcGetInfo = (\<lambda>t ty h sub. (mesosphere_rc, ucast proc_handle)),
      svcCreateSession = (\<lambda>t. (0, 0x11, 0x12)),
      svcCreateThread = (\<lambda>t arg. (0, 0x13)),
      svcStartThread = (\<lambda>t h. 0),
      svcSendSyncRequest = (\<lambda>t h. 0),
      svcReplyAndReceive = (\<lambda>t h. (0, proc_handle)),
      svcWaitSynchronizationSingle = (\<lambda>t h. 0),
      smcGetConfig = (\<lambda>t item. (0, hwtype)),
      memory = (\<lambda>t a. ucast (mirrored (rev t) a))\<rparr>"

definition world0 :: world where
  "world0 = \<lparr>trace = [], s_Handle = INVALID_HANDLE, s_SocType = Erista\<rparr>"

section \<open>Kinds of events\<close>

text \<open>The calls made while the process handle is acquired.\<close>

fun handle_event :: "event \<Rightarrow> bool" where
  "handle_event (EvGetInfo ty h sub rc v) = True"
| "handle_event (EvCreateSession rc s c) = True"
| "handle_event (EvCreateThread a rc h) = True"
| "handle_event (EvStartThread h rc) = True"
| "handle_event (EvSendSyncRequest h rc) = True"
| "handle_event (EvReplyAndReceive h rc v) = True"
| "handle_event (EvCloseHandle h) = True"
| "handle_event EvExitThread = True"
| "handle_event (EvWaitSynchronizationSingle h rc) = True"
| "handle_event _ = False"

text \<open>The address space of the examples: three blocks of 2, 1 and 5 pages.\<close>

definition example_blocks :: "MemoryInfo list" where
  "example_blocks =
     [\<lparr>addr = 0x7100000000, size' = 0x2000\<rparr>,
      \<lparr>addr = 0x7100002000, size' = 0x1000\<rparr>,
      \<lparr>addr = 0x7100003000, size' = 0x5000\<rparr>]"

definition example_kernel :: kernel where
  "example_kernel = synthetic_kernel example_blocks 0 0x8003 0"

text \<open>
  The mirror of the 16 bytes at 0x7100001FF8, which lie across the first two blocks, and
  the events of its construction.
\<close>

definition example_trace :: "event list" where
  "example_trace =
     [EvFindAslr 0x2000 0 0x2000000000,
      EvAddReservation 0x2000000000 0x2000 0x10,
      EvGetInfo 65001 0 0 0 0x8003,
      EvQueryMemory 0x7100001000 0 \<lparr>addr = 0x7100000000, size' = 0x2000\<rparr>,
      EvMapProcessMemory 0x2000000000 0x8003 0x7100001000 0x1000 0,
      EvQueryMemory 0x7100002000 0 \<lparr>addr = 0x7100002000, size' = 0x1000\<rparr>,
      EvMapProcessMemory 0x2000001000 0x8003 0x7100002000 0x1000 0]"

definition example_mirror :: RwPages where
  "example_mirror =
     \<lparr>m_Owner = True,
      m_Claim = \<lparr>m_Ro = 0x7100001FF8, m_Rw = 0x2000000FF8, m_Size = 0x10, m_RwReserve = 0x10\<rparr>\<rparr>"

section \<open>Blocks, ranges and what the walk is expected to do\<close>

text \<open>
  The notions the claims about the walk are stated with. A list of blocks is a chain when
  each block is non-empty, ends inside the address space and is followed by the block that
  starts at its end. A chain covers the range of \<open>length'\<close> bytes at \<open>start_address\<close> when
  its first block holds \<open>start_address\<close> and its last block ends at or after the end of the
  range. The environment reports a list of blocks when a query of any address inside one
  of them succeeds with that block, whatever happened before.
\<close>

definition block_end :: "MemoryInfo \<Rightarrow> u64" where
  "block_end b = addr b + size' b"

definition block_ok :: "MemoryInfo \<Rightarrow> bool" where
  "block_ok b \<longleftrightarrow> 0 < size' b \<and> unat (addr b) + unat (size' b) < 2 ^ 64"

fun chain :: "MemoryInfo list \<Rightarrow> bool" where
  "chain [] = True"
| "chain [b] = block_ok b"
| "chain (b # c # bs) = (block_ok b \<and> addr c = block_end b \<and> chain (c # bs))"

definition covers :: "uintptr_t \<Rightarrow> size_t \<Rightarrow> MemoryInfo list \<Rightarrow> bool" where
  "covers start_address length' bs \<longleftrightarrow>
     bs \<noteq> [] \<and> chain bs \<and> holds (hd bs) start_address
     \<and> unat start_address + unat length' \<le> unat (block_end (last bs))"

definition reports :: "kernel \<Rightarrow> MemoryInfo list \<Rightarrow> bool" where
  "reports K bs \<longleftrightarrow> (\<forall>t a. \<forall>b\<in>set bs. holds b a \<longrightarrow> svcQueryMemory K t a = (0, b))"

text \<open>
  A block meets the range when the two have a byte in common. The blocks the walk is
  expected to visit are those up to the first one that ends at or after the end of the
  range.
\<close>

definition meets :: "uintptr_t \<Rightarrow> size_t \<Rightarrow> MemoryInfo \<Rightarrow> bool" where
  "meets start_address length' b \<longleftrightarrow>
     max (unat (addr b)) (unat start_address)
       < min (unat start_address + unat length') (unat (addr b) + unat (size' b))"

fun visited :: "uintptr_t \<Rightarrow> MemoryInfo list \<Rightarrow> MemoryInfo list" where
  "visited end_address [] = []"
| "visited end_address (b # bs) =
     (if block_end b < end_address then b # visited end_address bs else [b])"

text \<open>
  The part of a block inside the range, as (address, length, offset from the start of the
  range), and the run of a callback over a list of blocks: for each block, the query that
  returned it and then the callback on its part of the range, stopping when the callback
  panics.
\<close>

definition piece :: "uintptr_t \<Rightarrow> uintptr_t \<Rightarrow> MemoryInfo \<Rightarrow> uintptr_t \<times> uintptr_t \<times> uintptr_t" where
  "piece start_address end_address b =
     (max (addr b) start_address,
      min end_address (block_end b) - max (addr b) start_address,
      max (addr b) start_address - start_address)"

fun run_callbacks ::
  "callback \<Rightarrow> uintptr_t \<Rightarrow> uintptr_t \<Rightarrow> u64 \<Rightarrow> MemoryInfo list \<Rightarrow> world \<Rightarrow> error + world"
where
  "run_callbacks cb start_address end_address q [] w = Inr w"
| "run_callbacks cb start_address end_address q (b # bs) w =
     (case piece start_address end_address b of
        (a, l, off) \<Rightarrow>
          (case cb a l off (emit (EvQueryMemory q 0 b) w) of
             Inl e \<Rightarrow> Inl e
           | Inr w2 \<Rightarrow> run_callbacks cb start_address end_address (block_end b) bs w2))"

text \<open>
  Pieces tile the bytes from position \<open>pos\<close> to position \<open>fin\<close> of the range when each
  starts, at its offset, where the one before ended, and the last one ends at \<open>fin\<close>.
\<close>

fun tiled :: "uintptr_t \<Rightarrow> nat \<Rightarrow> nat \<Rightarrow> (uintptr_t \<times> uintptr_t \<times> uintptr_t) list \<Rightarrow> bool" where
  "tiled start_address pos fin [] = (pos = fin)"
| "tiled start_address pos fin ((a, l, off) # ps) =
     (unat off = pos \<and> unat a = unat start_address + pos
      \<and> tiled start_address (pos + unat l) fin ps)"

text \<open>The events of a run, whether it returned or panicked.\<close>

fun result_trace :: "error + world \<Rightarrow> event list" where
  "result_trace (Inl (Panic msg w)) = trace w"
| "result_trace (Inr w) = trace w"

text \<open>
  The events of a walk that unmaps the range at \<open>start_address\<close> from the mirror at
  \<open>alignedRw\<close> for process \<open>h\<close>: successful queries, and successful unmap calls of a part
  of the range at the same offset in the mirror.
\<close>

fun unmap_walk_event :: "uintptr_t \<Rightarrow> Handle \<Rightarrow> uintptr_t \<Rightarrow> event \<Rightarrow> bool" where
  "unmap_walk_event alignedRw h start_address (EvQueryMemory q rc mi) = (rc = 0)"
| "unmap_walk_event alignedRw h start_address (EvUnmapProcessMemory rw p ro sz rc) =
     (p = h \<and> rc = 0 \<and> rw - alignedRw = ro - start_address)"
| "unmap_walk_event alignedRw h start_address _ = False"

fun is_map :: "event \<Rightarrow> bool" where
  "is_map (EvMapProcessMemory rw p ro sz rc) = True"
| "is_map _ = False"

fun is_unmap :: "event \<Rightarrow> bool" where
  "is_unmap (EvUnmapProcessMemory rw p ro sz rc) = True"
| "is_unmap _ = False"

text \<open>
  What a walk that returned has done to the state, for a callback that makes one call
  \<open>ev\<close> with \<open>G address offset ev\<close> each time it returns: it has added successful queries
  and such calls, at least one of them, each for an address at its offset from
  \<open>start_address\<close>, and nothing else has changed.
\<close>

definition walk_post ::
  "(uintptr_t \<Rightarrow> uintptr_t \<Rightarrow> event \<Rightarrow> bool) \<Rightarrow> uintptr_t \<Rightarrow> world \<Rightarrow> world \<Rightarrow> bool"
where
  "walk_post G start_address w w' \<longleftrightarrow>
     (\<exists>evs. trace w' = trace w @ evs \<and> s_Handle w' = s_Handle w \<and> s_SocType w' = s_SocType w
        \<and> (\<exists>ev\<in>set evs. \<exists>off. G (start_address + off) off ev)
        \<and> (\<forall>ev\<in>set evs. (\<exists>q m. ev = EvQueryMemory q 0 m)
                              \<or> (\<exists>off. G (start_address + off) off ev)))"

text \<open>
  The calls whose failure the code treats as fatal. A failed \<open>svcGetInfo\<close> is recovered by
  the fallback, the result of \<open>svcSendSyncRequest\<close> is not looked at, and the remaining
  calls return nothing.
\<close>

fun fatal_failure :: "event \<Rightarrow> bool" where
  "fatal_failure (EvQueryMemory q rc mi) = R_FAILED rc"
| "fatal_failure (EvMapProcessMemory rw p ro sz rc) = R_FAILED rc"
| "fatal_failure (EvUnmapProcessMemory rw p ro sz rc) = R_FAILED rc"
| "fatal_failure (EvFindAslr sz guard a) = (a = 0)"
| "fatal_failure (EvAddReservation a sz r) = (r = 0)"
| "fatal_failure (EvCreateSession rc s c) = R_FAILED rc"
| "fatal_failure (EvCreateThread a rc h) = R_FAILED rc"
| "fatal_failure (EvStartThread h rc) = R_FAILED rc"
| "fatal_failure (EvReplyAndReceive h rc v) = R_FAILED rc"
| "fatal_failure (EvWaitSynchronizationSingle h rc) = R_FAILED rc"
| "fatal_failure (EvGetConfig item rc v) = R_FAILED rc"
| "fatal_failure _ = False"

text \<open>
  What the walk of the constructor and of the destructor is expected to do over a list of
  blocks, read off the answers of the environment: for each block, the query that
  returned it and then the call \<open>svc\<close> (to map or to unmap) for the part of the range
  inside the block, at the same offset from \<open>mirror\<close>; the first call that fails ends the
  run with the panic \<open>msg\<close>.
\<close>

fun block_walk ::
  "(event list \<Rightarrow> u64 \<Rightarrow> Handle \<Rightarrow> u64 \<Rightarrow> u64 \<Rightarrow> Result)
    \<Rightarrow> (u64 \<Rightarrow> Handle \<Rightarrow> u64 \<Rightarrow> u64 \<Rightarrow> Result \<Rightarrow> event) \<Rightarrow> string
    \<Rightarrow> uintptr_t \<Rightarrow> Handle \<Rightarrow> uintptr_t \<Rightarrow> uintptr_t \<Rightarrow> u64 \<Rightarrow> MemoryInfo list \<Rightarrow> world
    \<Rightarrow> error + world"
where
  "block_walk svc ev msg mirror h start_address end_address q [] w = Inr w"
| "block_walk svc ev msg mirror h start_address end_address q (b # bs) w =
     (case piece start_address end_address b of
        (a, l, off) \<Rightarrow>
          (let w1 = emit (EvQueryMemory q 0 b) w;
               rc = svc (trace w1) (mirror + off) h a l;
               w2 = emit (ev (mirror + off) h a l rc) w1
           in if rc \<noteq> 0 then Inl (Panic msg w2)
              else block_walk svc ev msg mirror h start_address end_address (block_end b) bs w2))"

text \<open>
  The kernel hands out handles: a successful answer to the query for the current
  process, and the word a successful receive leaves in the thread-local buffer, is a
  handle in its low 32 bits, and a handle is never \<open>INVALID_HANDLE\<close>.
\<close>

definition hands_out_handles :: "kernel \<Rightarrow> bool" where
  "hands_out_handles K \<longleftrightarrow>
     (\<forall>t rc v. svcGetInfo K t InfoType_MesosphereCurrentProcess INVALID_HANDLE 0 = (rc, v) \<longrightarrow>
         \<not> R_FAILED rc \<longrightarrow> (ucast v :: Handle) \<noteq> INVALID_HANDLE)
     \<and> (\<forall>t s rc v. svcReplyAndReceive K t s = (rc, v) \<longrightarrow>
         \<not> R_FAILED rc \<longrightarrow> v \<noteq> INVALID_HANDLE)"

text \<open>
  An environment in which two calls fail and the constructor still returns: the
  \<open>svcGetInfo\<close> fast path is not available, and \<open>svcSendSyncRequest\<close> returns an error (the
  worker closes the session without replying).
\<close>

definition flaky_kernel :: kernel where
  "flaky_kernel =
     (synthetic_kernel example_blocks 0xF001 0x8003 0)\<lparr>svcSendSyncRequest := (\<lambda>t h. 0xE01)\<rparr>"

definition flaky_trace :: "event list" where
  "flaky_trace =
     [EvFindAslr 0x2000 0 0x2000000000,
      EvAddReservation 0x2000000000 0x2000 0x10,
      EvGetInfo 65001 0 0 0xF001 0x8003,
      EvCreateSession 0 0x11 0x12,
      EvCreateThread 0x11 0 0x13,
      EvStartThread 0x13 0,
      EvSendSyncRequest 0x12 0xE01,
      EvReplyAndReceive 0x11 0 0x8003,
      EvCloseHandle 0x11,
      EvExitThread,
      EvCloseHandle 0x12,
      EvWaitSynchronizationSingle 0x13 0,
      EvCloseHandle 0x13,
      EvQueryMemory 0x7100001000 0 \<lparr>addr = 0x7100000000, size' = 0x2000\<rparr>,
      EvMapProcessMemory 0x2000000000 0x8003 0x7100001000 0x1000 0,
      EvQueryMemory 0x7100002000 0 \<lparr>addr = 0x7100002000, size' = 0x1000\<rparr>,
      EvMapProcessMemory 0x2000001000 0x8003 0x7100002000 0x1000 0]"

section \<open>Page arithmetic\<close>

lemma fff_mask: "(0xFFF :: 64 word) = mask 12"
  by (simp add: mask_eq_exp_minus_1)

lemma split_mask: "((x::64 word) AND NOT (mask n)) + (x AND mask n) = x"
proof -
  have "(x AND NOT (mask n)) + (x AND mask n) = (x AND NOT (mask n)) OR (x AND mask n)"
    by (rule disjunctive_add_eq_or) (simp add: bit_eq_iff bit_simps)
  also have "\<dots> = x"
    by (rule bit_eqI) (auto simp: bit_simps)
  finally show ?thesis .
qed

lemma and_not_fff: "(x::64 word) AND NOT 0xFFF = x - (x AND 0xFFF)"
  using split_mask [of x 12] unfolding fff_mask by (simp add: algebra_simps)

lemma unat_and_fff: "unat ((x::64 word) AND 0xFFF) = unat x mod 4096"
  unfolding fff_mask by (simp add: take_bit_eq_mask [symmetric] unsigned_take_bit_eq take_bit_eq_mod unat_mod)

lemma and_fff_le: "(x::64 word) AND 0xFFF \<le> x"
  by (rule word_and_le2)

lemma unat_align_down: "unat ((x::64 word) AND NOT 0xFFF) = unat x - unat x mod 4096"
  unfolding and_not_fff using and_fff_le [of x]
  by (simp add: unat_sub unat_and_fff)

lemma page_mask: "PAGE_SIZE - 1 = 0xFFF"
  by (simp add: PAGE_SIZE_def)

lemma unat_ALIGN_DOWN: "unat (ALIGN_DOWN x PAGE_SIZE) = unat x - unat x mod 4096"
  unfolding ALIGN_DOWN_def page_mask by (rule unat_align_down)

lemma unat_ALIGN_UP:
  "unat (ALIGN_UP x PAGE_SIZE) = unat (x + 0xFFF) - unat (x + 0xFFF) mod 4096"
  unfolding ALIGN_UP_def page_mask by (rule unat_align_down)

lemma ALIGN_UP_page_multiple: "unat (ALIGN_UP x PAGE_SIZE) mod 4096 = 0"
  unfolding unat_ALIGN_UP by (simp add: mod_eq_0_iff_dvd dvd_minus_mod)

lemma ALIGN_DOWN_le: "ALIGN_DOWN x PAGE_SIZE \<le> x"
  unfolding ALIGN_DOWN_def by (rule word_and_le2)

lemma unat_offset_in_page: "unat (x - ALIGN_DOWN x PAGE_SIZE) = unat x mod 4096"
proof -
  have "x - ALIGN_DOWN x PAGE_SIZE = x AND 0xFFF"
    unfolding ALIGN_DOWN_def page_mask and_not_fff by simp
  then show ?thesis by (simp add: unat_and_fff)
qed

lemma ALIGN_UP_ge:
  assumes "unat x \<le> 2 ^ 64 - 4096"
  shows "x \<le> ALIGN_UP x PAGE_SIZE"
proof -
  have a: "unat (x + 0xFFF) = unat x + 4095"
    using assms by (simp add: unat_word_ariths)
  have "(unat x + 4095) mod 4096 < 4096"
    by simp
  then have "unat x + 4095 - (unat x + 4095) mod 4096 \<ge> unat x"
    by arith
  then show ?thesis
    by (simp add: word_le_nat_alt unat_ALIGN_UP a)
qed

section \<open>The formatted panic message has no NUL before its terminator\<close>

lemma NUL_notin_show_nat: "NUL \<notin> set (show_nat n)"
proof (induction n rule: show_nat.induct)
  case (1 n)
  have d: "digit_char k \<noteq> NUL" if "k < 10" for k
  proof -
    have "''0123456789'' ! k \<in> set ''0123456789''"
      using that by (intro nth_mem) simp
    then show ?thesis
      unfolding digit_char_def NUL_def by auto
  qed
  show ?case
  proof (cases "n < 10")
    case True
    then show ?thesis by (subst show_nat.simps) (simp add: d [THEN not_sym])
  next
    case False
    then show ?thesis using 1 by (subst show_nat.simps) (simp add: d [THEN not_sym])
  qed
qed

lemma NUL_notin_show_int: "NUL \<notin> set (show_int i)"
  by (simp add: show_int_def NUL_notin_show_nat) (simp add: NUL_def)

lemma NUL_notin_c_str: "NUL \<notin> set (c_str s)"
  unfolding c_str_def by (induction s) auto

lemma NUL_notin_panic_format: "NUL \<notin> set (panic_format file line msg)"
  by (simp add: panic_format_def NUL_notin_show_int NUL_notin_c_str) (simp add: NUL_def)

lemma c_str_terminated: "NUL \<notin> set xs \<Longrightarrow> c_str (xs @ NUL # ys) = xs"
  unfolding c_str_def by (induction xs) auto


lemma update_keeps_terminator:
  assumes "length xs \<le> n"
  shows "\<exists>ys. (xs @ NUL # zs)[n := NUL] = xs @ NUL # ys"
proof -
  have "(xs @ NUL # zs)[n := NUL] = xs @ (NUL # zs)[n - length xs := NUL]"
    using assms by (simp add: list_update_append)
  moreover have "\<exists>ys. (NUL # zs)[n - length xs := NUL] = NUL # ys"
    by (cases "n - length xs") simp_all
  ultimately show ?thesis by auto
qed

section \<open>The trace of the handle acquisition\<close>

lemma trace_emit [simp]: "trace (emit e w) = trace w @ [e]"
  by (simp add: emit_def)

lemma s_Handle_emit [simp]: "s_Handle (emit e w) = s_Handle w"
  by (simp add: emit_def)

lemma s_SocType_emit [simp]: "s_SocType (emit e w) = s_SocType w"
  by (simp add: emit_def)

lemma GetViaMesosphere_trace:
  "GetViaMesosphere K w = (r, w1) \<Longrightarrow>
     \<exists>rc v. trace w1 = trace w @ [EvGetInfo InfoType_MesosphereCurrentProcess INVALID_HANDLE 0 rc v]
        \<and> s_SocType w1 = s_SocType w"
  by (auto simp: GetViaMesosphere_def Let_def split: prod.splits if_splits)

lemma ReceiveProcessHandleThreadMain_trace:
  "ReceiveProcessHandleThreadMain K s w = Inr w1 \<Longrightarrow>
     \<exists>evs. trace w1 = trace w @ evs \<and> s_SocType w1 = s_SocType w
        \<and> (\<forall>e\<in>set evs. handle_event e \<and> \<not> fatal_failure e)"
  by (auto simp: ReceiveProcessHandleThreadMain_def Let_def split: prod.splits if_splits)

lemma GetViaIpcTrick_trace:
  "GetViaIpcTrick K w = Inr w1 \<Longrightarrow>
     \<exists>evs. trace w1 = trace w @ evs \<and> s_SocType w1 = s_SocType w
        \<and> (\<forall>e\<in>set evs. handle_event e \<and> \<not> fatal_failure e)"
  by (auto simp: GetViaIpcTrick_def Let_def split: prod.splits if_splits sum.splits
      dest!: ReceiveProcessHandleThreadMain_trace)

lemma Get_handle: "Get K w = Inr (h, w1) \<Longrightarrow> s_Handle w1 = h"
  by (auto simp: Get_def Let_def split: prod.splits if_splits sum.splits)

lemma Get_trace:
  assumes "Get K w = Inr (h, w1)"
  shows "\<exists>evs. trace w1 = trace w @ evs \<and> s_SocType w1 = s_SocType w
           \<and> (\<forall>e\<in>set evs. handle_event e \<and> \<not> fatal_failure e)"
proof (cases "s_Handle w = INVALID_HANDLE")
  case False
  with assms show ?thesis by (simp add: Get_def)
next
  case True
  obtain r w0 where m: "GetViaMesosphere K w = (r, w0)" by (cases "GetViaMesosphere K w")
  from GetViaMesosphere_trace [OF m] obtain rc v where
    t0: "trace w0 = trace w @ [EvGetInfo InfoType_MesosphereCurrentProcess INVALID_HANDLE 0 rc v]"
    and s0: "s_SocType w0 = s_SocType w"
    by blast
  show ?thesis
  proof (cases "R_FAILED r")
    case False
    with assms True m have "w1 = w0" by (simp add: Get_def)
    with t0 s0 show ?thesis by simp
  next
    case f: True
    with assms True m have "GetViaIpcTrick K w0 = Inr w1"
      by (simp add: Get_def split: sum.splits)
    from GetViaIpcTrick_trace [OF this] t0 s0 show ?thesis by auto
  qed
qed

lemma Get_acquires:
  assumes "Get K w = Inr (h, w1)" and "s_Handle w = INVALID_HANDLE"
  shows "\<exists>rc v evs. trace w1
           = trace w @ EvGetInfo InfoType_MesosphereCurrentProcess INVALID_HANDLE 0 rc v # evs"
proof -
  obtain r w0 where m: "GetViaMesosphere K w = (r, w0)" by (cases "GetViaMesosphere K w")
  from GetViaMesosphere_trace [OF m] obtain rc v where
    t0: "trace w0 = trace w @ [EvGetInfo InfoType_MesosphereCurrentProcess INVALID_HANDLE 0 rc v]"
    and s0: "s_SocType w0 = s_SocType w"
    by blast
  show ?thesis
  proof (cases "R_FAILED r")
    case False
    with assms m have "w1 = w0" by (simp add: Get_def)
    with t0 s0 show ?thesis by simp
  next
    case True
    with assms m have "GetViaIpcTrick K w0 = Inr w1"
      by (simp add: Get_def split: sum.splits)
    from GetViaIpcTrick_trace [OF this] t0 s0 show ?thesis by auto
  qed
qed

section \<open>The walk over a chain of blocks\<close>

lemma unat_lt_64: "unat (x :: 64 word) < 2 ^ 64"
  using unsigned_less [of x, where 'a = nat] by simp

lemma chain_tail: "chain (b # bs) \<Longrightarrow> chain bs"
  by (cases bs) simp_all

lemma chain_head_ok: "chain (b # bs) \<Longrightarrow> block_ok b"
  by (cases bs) simp_all

lemma holds_block_start: "block_ok b \<Longrightarrow> holds b (addr b)"
  by (simp add: holds_def block_ok_def unat_gt_0 word_neq_0_conv)

lemma chain_last_ok: "chain bs \<Longrightarrow> bs \<noteq> [] \<Longrightarrow> block_ok (last bs)"
  by (induction bs rule: chain.induct) simp_all

lemma unat_block_end: "block_ok b \<Longrightarrow> unat (block_end b) = unat (addr b) + unat (size' b)"
  by (simp add: block_end_def block_ok_def unat_word_ariths)

lemma loop_follows_chain:
  assumes "chain (b # bs)"
    and "\<forall>t a. \<forall>c\<in>set (b # bs). holds c a \<longrightarrow> svcQueryMemory K t a = (0, c)"
    and "holds b (addr mi + size' mi)"
    and "e \<le> block_end (last (b # bs))"
  shows "ForEachMemRange_loop K cb s e mi w
           = Some (run_callbacks cb s e (addr mi + size' mi) (visited e (b # bs)) w)"
  using assms
proof (induction bs arbitrary: b mi w)
  case Nil
  then have q: "svcQueryMemory K (trace w) (addr mi + size' mi) = (0, b)" by simp
  from Nil have fin: "\<not> block_end b < e" by simp
  show ?case
    using fin q
    by (subst ForEachMemRange_loop.simps)
      (simp add: R_FAILED_def piece_def block_end_def Let_def split: sum.splits)
next
  case (Cons c bs)
  then have q: "svcQueryMemory K (trace w) (addr mi + size' mi) = (0, b)" by simp
  show ?case
  proof (cases "block_end b < e")
    case False
    then show ?thesis
      using q
      by (subst ForEachMemRange_loop.simps)
        (simp add: R_FAILED_def piece_def block_end_def Let_def split: sum.splits)
  next
    case True
    from Cons.prems have ch: "chain (c # bs)" and adj: "addr c = block_end b"
      by simp_all
    have hc: "holds c (addr b + size' b)"
      using holds_block_start [OF chain_head_ok [OF ch]] adj by (simp add: block_end_def)
    have rep: "\<forall>t a. \<forall>d\<in>set (c # bs). holds d a \<longrightarrow> svcQueryMemory K t a = (0, d)"
      using Cons.prems(2) by simp
    have lst: "e \<le> block_end (last (c # bs))"
      using Cons.prems(4) by simp
    have IH: "ForEachMemRange_loop K cb s e b w2
           = Some (run_callbacks cb s e (addr b + size' b) (visited e (c # bs)) w2)" for w2
      by (rule Cons.IH [OF ch rep hc lst])
    show ?thesis
      using True q
      by (subst ForEachMemRange_loop.simps)
        (simp add: R_FAILED_def piece_def block_end_def Let_def IH split: sum.splits)
  qed
qed

lemma walk_follows_chain:
  assumes c: "covers s l bs" and r: "reports K bs"
  shows "ForEachMemRange K cb s l w = Some (run_callbacks cb s (s + l) s (visited (s + l) bs) w)"
proof -
  from c obtain b bs' where bs: "bs = b # bs'" by (cases bs) (auto simp: covers_def)
  have ok: "block_ok (last bs)"
    using c by (simp add: covers_def chain_last_ok)
  have "unat s + unat l < 2 ^ 64"
    using c unat_lt_64 [of "block_end (last bs)"] by (simp add: covers_def)
  then have "unat (s + l) = unat s + unat l"
    by (simp add: unat_word_ariths)
  then have e: "s + l \<le> block_end (last (b # bs'))"
    using c by (simp add: covers_def bs word_le_nat_alt)
  show ?thesis
    unfolding ForEachMemRange_def bs
    using loop_follows_chain [of b bs' K "\<lparr>addr = s, size' = 0\<rparr>" "s + l" cb s w] c r e
    by (simp add: covers_def reports_def bs)
qed

lemma unat_max: "unat (max (a :: 64 word) b) = max (unat a) (unat b)"
  by (simp add: max_def word_le_nat_alt)

lemma unat_min: "unat (min (a :: 64 word) b) = min (unat a) (unat b)"
  by (simp add: min_def word_le_nat_alt)

lemma unat_diff: "unat (b :: 64 word) \<le> unat a \<Longrightarrow> unat (a - b) = unat a - unat b"
  by (simp add: unat_sub word_le_nat_alt)

lemma block_size_pos: "block_ok b \<Longrightarrow> 0 < unat (size' b)"
  by (simp add: block_ok_def unat_gt_0 word_neq_0_conv)

lemma tiled_chain:
  assumes "chain (b # bs)"
    and "max (unat (addr b)) (unat s) = unat s + pos"
    and "unat s + pos \<le> unat e"
    and "unat s + pos < unat (block_end b)"
    and "unat e \<le> unat (block_end (last (b # bs)))"
  shows "tiled s pos (unat e - unat s) (map (piece s e) (visited e (b # bs)))"
  using assms
proof (induction bs arbitrary: b pos)
  case Nil
  then have fin: "\<not> block_end b < e" by (simp add: word_less_nat_alt)
  have m: "unat (max (addr b) s) = unat s + pos"
    using Nil.prems(2) by (simp add: unat_max)
  have mn: "unat (min e (block_end b)) = unat e"
    using Nil.prems(5) by (simp add: unat_min)
  have off: "unat (max (addr b) s - s) = pos"
    using m by (simp add: unat_diff)
  have len: "unat (min e (block_end b) - max (addr b) s) = unat e - (unat s + pos)"
    using m mn Nil.prems(3) by (simp add: unat_diff)
  show ?case
    using fin m off len Nil.prems(3) by (simp add: piece_def)
next
  case (Cons c bs)
  have m: "unat (max (addr b) s) = unat s + pos"
    using Cons.prems(2) by (simp add: unat_max)
  have off: "unat (max (addr b) s - s) = pos"
    using m by (simp add: unat_diff)
  show ?case
  proof (cases "block_end b < e")
    case False
    then have mn: "unat (min e (block_end b)) = unat e"
      by (simp add: unat_min word_less_nat_alt)
    have len: "unat (min e (block_end b) - max (addr b) s) = unat e - (unat s + pos)"
      using m mn Cons.prems(3) by (simp add: unat_diff)
    show ?thesis
      using False m off len Cons.prems(3) by (simp add: piece_def)
  next
    case True
    then have lt: "unat (block_end b) < unat e" by (simp add: word_less_nat_alt)
    then have mn: "unat (min e (block_end b)) = unat (block_end b)"
      by (simp add: unat_min)
    have len: "unat (min e (block_end b) - max (addr b) s) = unat (block_end b) - (unat s + pos)"
      using m mn Cons.prems(4) by (simp add: unat_diff)
    from Cons.prems(1) have ch: "chain (c # bs)" and adj: "addr c = block_end b"
      by simp_all
    let ?pos = "pos + (unat (block_end b) - (unat s + pos))"
    have p: "unat s + ?pos = unat (block_end b)"
      using Cons.prems(4) by simp
    have 1: "max (unat (addr c)) (unat s) = unat s + ?pos"
      using p adj Cons.prems(4) by simp
    have 2: "unat s + ?pos \<le> unat e" using p lt by simp
    have 3: "unat s + ?pos < unat (block_end c)"
      using p adj unat_block_end [OF chain_head_ok [OF ch]] block_size_pos [OF chain_head_ok [OF ch]]
      by simp
    have 4: "unat e \<le> unat (block_end (last (c # bs)))"
      using Cons.prems(5) by simp
    have IH: "tiled s ?pos (unat e - unat s) (map (piece s e) (visited e (c # bs)))"
      by (rule Cons.IH [OF ch 1 2 3 4])
    have v: "visited e (b # c # bs) = b # visited e (c # bs)"
      using True by simp
    have pc: "piece s e b
        = (max (addr b) s, min e (block_end b) - max (addr b) s, max (addr b) s - s)"
      by (simp add: piece_def)
    show ?thesis
      unfolding v list.map pc tiled.simps using m off len IH by simp
  qed
qed

lemma chain_later_blocks:
  "chain (b # bs) \<Longrightarrow> \<forall>d\<in>set bs. unat (block_end b) \<le> unat (addr d)"
proof (induction bs arbitrary: b)
  case Nil
  then show ?case by simp
next
  case (Cons c bs)
  then have ch: "chain (c # bs)" and adj: "addr c = block_end b" by simp_all
  have "unat (addr c) \<le> unat (block_end c)"
    using unat_block_end [OF chain_head_ok [OF ch]] by simp
  with Cons.IH [OF ch] adj show ?case by auto
qed

lemma visited_meets:
  assumes "chain (b # bs)"
    and "max (unat (addr b)) (unat s) < unat s + unat l"
    and "unat s < unat (block_end b)"
    and "unat (s + l) = unat s + unat l"
  shows "filter (meets s l) (b # bs) = visited (s + l) (b # bs)"
  using assms
proof (induction bs arbitrary: b)
  case Nil
  then have ok: "block_ok b" by simp
  show ?case
    using Nil unat_block_end [OF ok] block_size_pos [OF ok]
    by (simp add: meets_def word_less_nat_alt)
next
  case (Cons c bs)
  have ok: "block_ok b" using Cons.prems(1) by simp
  have mb: "meets s l b"
    using Cons.prems(2,3) unat_block_end [OF ok] block_size_pos [OF ok]
    by (simp add: meets_def)
  from Cons.prems(1) have ch: "chain (c # bs)" and adj: "addr c = block_end b"
    by simp_all
  show ?case
  proof (cases "block_end b < s + l")
    case True
    then have lt: "unat (block_end b) < unat s + unat l"
      using Cons.prems(4) by (simp add: word_less_nat_alt)
    have 2: "max (unat (addr c)) (unat s) < unat s + unat l"
      using lt adj Cons.prems(3) by simp
    have 3: "unat s < unat (block_end c)"
      using unat_block_end [OF chain_head_ok [OF ch]] adj Cons.prems(3) by simp
    from Cons.IH [OF ch 2 3 Cons.prems(4)] mb True show ?thesis by simp
  next
    case False
    then have ge: "unat s + unat l \<le> unat (block_end b)"
      using Cons.prems(4) by (simp add: word_less_nat_alt)
    have "\<forall>d\<in>set (c # bs). \<not> meets s l d"
      using chain_later_blocks [OF Cons.prems(1)] ge by (auto simp: meets_def)
    then have "filter (meets s l) (c # bs) = []"
      by (simp only: filter_empty_conv)
    with mb False show ?thesis by simp
  qed
qed

lemma visited_stops:
  assumes "bs \<noteq> []" and "e \<le> block_end (last bs)"
  shows "visited e bs \<noteq> [] \<and> (\<forall>b\<in>set (butlast (visited e bs)). block_end b < e)
       \<and> e \<le> block_end (last (visited e bs))"
  using assms
proof (induction bs)
  case Nil
  then show ?case by simp
next
  case (Cons b bs)
  show ?case
  proof (cases "block_end b < e")
    case False
    then have eq: "visited e (b # bs) = [b]" by simp
    from False have "e \<le> block_end b" by (simp add: not_less)
    then show ?thesis unfolding eq by simp
  next
    case True
    with Cons.prems(2) have ne: "bs \<noteq> []" by auto
    with Cons.prems(2) have "e \<le> block_end (last bs)" by simp
    from Cons.IH [OF ne this] have v: "visited e bs \<noteq> []"
      and b: "\<forall>b\<in>set (butlast (visited e bs)). block_end b < e"
      and l: "e \<le> block_end (last (visited e bs))"
      by simp_all
    have eq: "visited e (b # bs) = b # visited e bs" using True by simp
    show ?thesis
      unfolding eq using v b l True by simp
  qed
qed

section \<open>What a walk that returns has done\<close>

lemma walk_post_step:
  "G (s + off) off ev \<Longrightarrow> walk_post G s w (emit ev (emit (EvQueryMemory q 0 m) w))"
  unfolding walk_post_def
  by (intro exI [of _ "[EvQueryMemory q 0 m, ev]"]) auto

lemma walk_post_trans:
  assumes "walk_post G s w w1" and "walk_post G s w1 w2"
  shows "walk_post G s w w2"
proof -
  from assms(1) obtain e1 where 1: "trace w1 = trace w @ e1" "s_Handle w1 = s_Handle w"
    "s_SocType w1 = s_SocType w"
    "\<exists>ev\<in>set e1. \<exists>off. G (s + off) off ev"
    "\<forall>ev\<in>set e1. (\<exists>q m. ev = EvQueryMemory q 0 m) \<or> (\<exists>off. G (s + off) off ev)"
    unfolding walk_post_def by blast
  from assms(2) obtain e2 where 2: "trace w2 = trace w1 @ e2" "s_Handle w2 = s_Handle w1"
    "s_SocType w2 = s_SocType w1"
    "\<forall>ev\<in>set e2. (\<exists>q m. ev = EvQueryMemory q 0 m) \<or> (\<exists>off. G (s + off) off ev)"
    unfolding walk_post_def by blast
  show ?thesis
    unfolding walk_post_def
  proof (intro exI [of _ "e1 @ e2"] conjI)
    show "trace w2 = trace w @ e1 @ e2" using 1 2 by simp
    show "s_Handle w2 = s_Handle w" using 1 2 by simp
    show "s_SocType w2 = s_SocType w" using 1 2 by simp
    show "\<exists>ev\<in>set (e1 @ e2). \<exists>off. G (s + off) off ev" using 1(4) by auto
    show "\<forall>ev\<in>set (e1 @ e2). (\<exists>q m. ev = EvQueryMemory q 0 m) \<or> (\<exists>off. G (s + off) off ev)"
      using 1(5) 2(4) by auto
  qed
qed

lemma loop_body_Inr:
  assumes "(let (rc, meminfo') = svcQueryMemory K (trace w) q;
          w1 = emit (EvQueryMemory q rc meminfo') w
      in if R_FAILED rc then Some (Inl (Panic ''svcQueryMemory failed.'' w1))
         else
          let offset = max (addr meminfo') s - s;
              current_address = s + offset;
              current_length = min e (addr meminfo' + size' meminfo') - current_address
          in case cb current_address current_length offset w1 of
               Inl err \<Rightarrow> Some (Inl err)
             | Inr w2 \<Rightarrow>
                 if addr meminfo' + size' meminfo' < e
                 then f K cb s e meminfo' w2
                 else Some (Inr w2)) = Some (Inr w')"
  obtains m w2 where "svcQueryMemory K (trace w) q = (0, m)"
    and "cb (s + (max (addr m) s - s)) (min e (addr m + size' m) - (s + (max (addr m) s - s)))
            (max (addr m) s - s) (emit (EvQueryMemory q 0 m) w) = Inr w2"
    and "if addr m + size' m < e then f K cb s e m w2 = Some (Inr w') else w2 = w'"
proof -
  obtain rc m where q: "svcQueryMemory K (trace w) q = (rc, m)"
    by (cases "svcQueryMemory K (trace w) q")
  from assms q have ok: "rc = 0"
    by (simp add: Let_def R_FAILED_def split: if_splits)
  let ?c = "cb (s + (max (addr m) s - s)) (min e (addr m + size' m) - (s + (max (addr m) s - s)))
            (max (addr m) s - s) (emit (EvQueryMemory q 0 m) w)"
  from assms q ok obtain w2 where c: "?c = Inr w2"
    by (cases ?c) (simp_all add: Let_def R_FAILED_def)
  from assms q ok c
  have "if addr m + size' m < e then f K cb s e m w2 = Some (Inr w') else w2 = w'"
    by (simp add: Let_def R_FAILED_def split: if_splits)
  with q ok c that show thesis by blast
qed

lemma loop_events_aux:
  assumes run: "ForEachMemRange_loop K cb s e mi w = Some y"
  shows "(\<forall>a l off w w'. cb a l off w = Inr w' \<longrightarrow> (\<exists>ev. w' = emit ev w \<and> G a off ev))
           \<longrightarrow> (\<forall>w'. y = Inr w' \<longrightarrow> walk_post G s w w')"
  using run
proof (induct rule: ForEachMemRange_loop.raw_induct [rotated 1, consumes 1])
  case (1 f K cb s e mi w y)
  show ?case
  proof (intro impI allI)
    fix w'
    assume cb: "\<forall>a l off w w'. cb a l off w = Inr w' \<longrightarrow> (\<exists>ev. w' = emit ev w \<and> G a off ev)"
      and y: "y = Inr w'"
    from 1(2) [unfolded y]
    obtain m w2 where q: "svcQueryMemory K (trace w) (addr mi + size' mi) = (0, m)"
      and c: "cb (s + (max (addr m) s - s)) (min e (addr m + size' m) - (s + (max (addr m) s - s)))
            (max (addr m) s - s) (emit (EvQueryMemory (addr mi + size' mi) 0 m) w) = Inr w2"
      and rest: "if addr m + size' m < e then f K cb s e m w2 = Some (Inr w') else w2 = w'"
      by (rule loop_body_Inr)
    from cb c obtain ev where w2: "w2 = emit ev (emit (EvQueryMemory (addr mi + size' mi) 0 m) w)"
      and g: "G (s + (max (addr m) s - s)) (max (addr m) s - s) ev"
      by blast
    have step: "walk_post G s w w2"
      unfolding w2 using g by (rule walk_post_step)
    show "walk_post G s w w'"
    proof (cases "addr m + size' m < e")
      case False
      with rest step show ?thesis by simp
    next
      case True
      with rest have "f K cb s e m w2 = Some (Inr w')" by simp
      from 1(1) [OF this] cb have "walk_post G s w2 w'" by simp
      with step show ?thesis by (rule walk_post_trans)
    qed
  qed
qed

lemma walk_events:
  assumes "ForEachMemRange K cb s l w = Some (Inr w')"
    and "\<And>a l off w w'. cb a l off w = Inr w' \<Longrightarrow> \<exists>ev. w' = emit ev w \<and> G a off ev"
  shows "walk_post G s w w'"
  using loop_events_aux [OF assms(1) [unfolded ForEachMemRange_def], of G] assms(2) by blast

lemma map_callback_event:
  "map_callback K arw h a l off w = Inr w' \<Longrightarrow>
     \<exists>ev. w' = emit ev w \<and> ev = EvMapProcessMemory (arw + off) h a l 0"
  by (auto simp: map_callback_def Let_def R_FAILED_def split: if_splits)

lemma unmap_callback_event:
  "unmap_callback K c h a l off w = Inr w' \<Longrightarrow>
     \<exists>ev. w' = emit ev w \<and> ev = EvUnmapProcessMemory (GetAlignedRw c + off) h a l 0"
  by (auto simp: unmap_callback_def Let_def R_FAILED_def split: if_splits)

section \<open>The synthetic environment reports its blocks\<close>

lemma find_holds_chain:
  assumes "chain bs" and "b \<in> set bs" and "holds b a"
  shows "find (\<lambda>c. holds c a) bs = Some b"
  using assms
proof (induction bs)
  case Nil
  then show ?case by simp
next
  case (Cons c cs)
  show ?case
  proof (cases "holds c a")
    case True
    have "b = c"
    proof (rule ccontr)
      assume "b \<noteq> c"
      with Cons.prems(2) have "b \<in> set cs" by simp
      with chain_later_blocks [OF Cons.prems(1)]
      have "unat (block_end c) \<le> unat (addr b)" by simp
      moreover have "unat (addr b) \<le> unat a"
        using Cons.prems(3) by (simp add: holds_def word_le_nat_alt)
      moreover have "unat a < unat (block_end c)"
        using True unat_block_end [OF chain_head_ok [OF Cons.prems(1)]] by (simp add: holds_def)
      ultimately show False by simp
    qed
    with True show ?thesis by simp
  next
    case False
    with Cons.prems(2,3) have "b \<in> set cs" by auto
    from Cons.IH [OF chain_tail [OF Cons.prems(1)] this Cons.prems(3)] False
    show ?thesis by simp
  qed
qed

lemma synthetic_kernel_reports:
  "chain bs \<Longrightarrow> reports (synthetic_kernel bs rc h hw) bs"
  by (simp add: reports_def synthetic_kernel_def find_holds_chain)

lemma example_chain: "chain example_blocks"
  by (simp add: example_blocks_def block_ok_def block_end_def)

lemma example_reports: "reports example_kernel example_blocks"
  unfolding example_kernel_def using example_chain by (rule synthetic_kernel_reports)

section \<open>The constructor and the destructor, step by step\<close>

lemma memcmp_bytes_eq:
  "length xs = length ys \<Longrightarrow> memcmp_bytes xs ys = 0 \<Longrightarrow> xs = ys"
  by (induction xs ys rule: list_induct2) (auto split: if_splits)

lemma memcmp_zero:
  assumes "memcmp mem a b n = 0"
  shows "bytes_at mem a n = bytes_at mem b n"
    and "\<forall>k<unat n. mem (a + of_nat k) = mem (b + of_nat k)"
proof -
  show eq: "bytes_at mem a n = bytes_at mem b n"
    using assms unfolding memcmp_def by (intro memcmp_bytes_eq) (simp_all add: bytes_at_def)
  show "\<forall>k<unat n. mem (a + of_nat k) = mem (b + of_nat k)"
  proof (intro allI impI)
    fix k assume "k < unat n"
    then have "bytes_at mem a n ! k = mem (a + of_nat k)" "bytes_at mem b n ! k = mem (b + of_nat k)"
      by (simp_all add: bytes_at_def)
    with eq show "mem (a + of_nat k) = mem (b + of_nat k)" by simp
  qed
qed

lemma ctor_Inr:
  assumes "RwPages_ctor K ro sz w = Some (Inr (this, w'))"
  obtains arw rsv h w3 where
    "arw = virtmemFindAslr K (trace w) (GetAlignedSize \<lparr>m_Ro = ro, m_Rw = 0, m_Size = sz, m_RwReserve = 0\<rparr>) 0"
    "arw \<noteq> 0" "rsv \<noteq> 0"
    "Get K (emit (EvAddReservation arw (GetAlignedSize \<lparr>m_Ro = ro, m_Rw = 0, m_Size = sz, m_RwReserve = 0\<rparr>) rsv)
         (emit (EvFindAslr (GetAlignedSize \<lparr>m_Ro = ro, m_Rw = 0, m_Size = sz, m_RwReserve = 0\<rparr>) 0 arw) w))
       = Inr (h, w3)"
    "ForEachMemRange K (map_callback K arw h) (ALIGN_DOWN ro PAGE_SIZE)
        (GetAlignedSize \<lparr>m_Ro = ro, m_Rw = 0, m_Size = sz, m_RwReserve = 0\<rparr>) w3 = Some (Inr w')"
    "this = \<lparr>m_Owner = True, m_Claim = \<lparr>m_Ro = ro, m_Rw = arw + (ro - ALIGN_DOWN ro PAGE_SIZE),
               m_Size = sz, m_RwReserve = rsv\<rparr>\<rparr>"
    "memcmp (memory K (trace w')) ro (arw + (ro - ALIGN_DOWN ro PAGE_SIZE)) sz = 0"
  using assms
  by (auto simp: RwPages_ctor_def Let_def GetAlignedRo_def GetAlignedSize_def
      split: if_splits sum.splits option.splits prod.splits)

section \<open>The example mirror\<close>

lemma example_walk:
  "ForEachMemRange example_kernel cb 0x7100001000 0x2000 w
     = Some (run_callbacks cb 0x7100001000 0x7100003000 0x7100001000
         [\<lparr>addr = 0x7100000000, size' = 0x2000\<rparr>, \<lparr>addr = 0x7100002000, size' = 0x1000\<rparr>] w)"
proof -
  have c: "covers 0x7100001000 0x2000 example_blocks"
    by (simp add: covers_def example_chain) (simp add: example_blocks_def holds_def block_end_def)
  have v: "visited (0x7100001000 + 0x2000) example_blocks
      = [\<lparr>addr = 0x7100000000, size' = 0x2000\<rparr>, \<lparr>addr = 0x7100002000, size' = 0x1000\<rparr>]"
    by (simp add: example_blocks_def block_end_def)
  show ?thesis
    unfolding walk_follows_chain [OF c example_reports] v by simp
qed

lemma upt_16: "[0..<16] = [0, 1, 2, 3, 4, 5, 6, 7, 8, 9, 10, 11, 12, 13, 14, 15 :: nat]"
  by code_simp

lemma example_memory:
  "bytes_at (memory example_kernel example_trace) 0x7100001FF8 0x10
     = [0xF8, 0xF9, 0xFA, 0xFB, 0xFC, 0xFD, 0xFE, 0xFF, 0, 1, 2, 3, 4, 5, 6, 7]"
  "bytes_at (memory example_kernel example_trace) 0x2000000FF8 0x10
     = [0xF8, 0xF9, 0xFA, 0xFB, 0xFC, 0xFD, 0xFE, 0xFF, 0, 1, 2, 3, 4, 5, 6, 7]"
  by (simp_all add: bytes_at_def example_kernel_def synthetic_kernel_def example_trace_def upt_16)

lemma example_ctor:
  "RwPages_ctor example_kernel 0x7100001FF8 0x10 world0
     = Some (Inr (example_mirror,
         \<lparr>trace = example_trace, s_Handle = 0x8003, s_SocType = Erista\<rparr>))"
proof -
  have a: "GetAlignedSize \<lparr>m_Ro = 0x7100001FF8, m_Rw = 0, m_Size = 0x10, m_RwReserve = r\<rparr> = 0x2000"
    "GetAlignedRo \<lparr>m_Ro = 0x7100001FF8, m_Rw = 0, m_Size = 0x10, m_RwReserve = r\<rparr> = 0x7100001000"
    for r
    by (simp_all add: GetAlignedSize_def GetAlignedRo_def ALIGN_UP_def ALIGN_DOWN_def PAGE_SIZE_def)
  have k: "virtmemFindAslr example_kernel t n g = 0x2000000000"
    "virtmemAddReservation example_kernel t x n = 0x10"
    "svcGetInfo example_kernel t ty h sub = (0, 0x8003)"
    "svcMapProcessMemory example_kernel t rw h ro n = 0"
    for t n g x ty h sub rw ro
    by (simp_all add: example_kernel_def synthetic_kernel_def)
  have m: "memcmp (memory example_kernel example_trace) 0x7100001FF8 0x2000000FF8 0x10 = 0"
    by (simp add: memcmp_def example_memory)
  show ?thesis
    using m
    by (simp add: RwPages_ctor_def a k example_walk Get_def GetViaMesosphere_def map_callback_def
        piece_def block_end_def emit_def world0_def R_FAILED_def INVALID_HANDLE_def
        InfoType_MesosphereCurrentProcess_def example_trace_def example_mirror_def)
qed

lemma ALIGN_DOWN_mirror:
  assumes al: "arw AND (PAGE_SIZE - 1) = 0"
  shows "ALIGN_DOWN (arw + (ro - ALIGN_DOWN ro PAGE_SIZE)) PAGE_SIZE = arw"
proof -
  let ?d = "ro - ALIGN_DOWN ro PAGE_SIZE"
  have d: "unat ?d = unat ro mod 4096" by (rule unat_offset_in_page)
  have a: "unat arw mod 4096 = 0"
    using al unat_and_fff [of arw] by (simp add: page_mask)
  have "unat arw div 4096 < 2 ^ 52"
    using unat_lt_64 [of arw] by (simp add: less_mult_imp_div_less)
  then have "4096 * (unat arw div 4096) + 4096 \<le> 2 ^ 64" by simp
  with a have b: "unat arw + 4096 \<le> 2 ^ 64"
    by (simp add: mod_eq_0_iff_dvd)
  have s: "unat (arw + ?d) = unat arw + unat ?d"
    using b d by (simp add: unat_word_ariths)
  have "(unat arw + unat ro mod 4096) mod 4096 = unat ro mod 4096"
    using a by (simp add: mod_add_left_eq [symmetric])
  then have "unat (ALIGN_DOWN (arw + ?d) PAGE_SIZE) = unat arw"
    by (simp add: unat_ALIGN_DOWN s d)
  then show ?thesis by (simp add: word_unat_eq_iff)
qed

lemma dtor_Inr:
  assumes "RwPages_dtor K this w = Some (Inr w')" and "m_Owner this"
  obtains h w3 w4 where
    "Get K (emit (EvICacheInvalidate (m_Ro (m_Claim this)) (m_Size (m_Claim this)))
         (emit (EvDCacheFlush (m_Rw (m_Claim this)) (m_Size (m_Claim this))) w)) = Inr (h, w3)"
    "ForEachMemRange K (unmap_callback K (m_Claim this) h) (GetAlignedRo (m_Claim this))
        (GetAlignedSize (m_Claim this)) w3 = Some (Inr w4)"
    "w' = emit (EvRemoveReservation (m_RwReserve (m_Claim this))) w4"
  using assms
  by (auto simp: RwPages_dtor_def Let_def split: if_splits sum.splits option.splits prod.splits)

section \<open>The first iteration of the walk\<close>

lemma walk_first_iteration:
  "ForEachMemRange K cb s l w =
     (case svcQueryMemory K (trace w) s of
        (rc, mi) \<Rightarrow>
          if R_FAILED rc
          then Some (Inl (Panic ''svcQueryMemory failed.'' (emit (EvQueryMemory s rc mi) w)))
          else (case piece s (s + l) mi of
                  (a, n, off) \<Rightarrow>
                    (case cb a n off (emit (EvQueryMemory s rc mi) w) of
                       Inl e \<Rightarrow> Some (Inl e)
                     | Inr w2 \<Rightarrow>
                         if block_end mi < s + l
                         then ForEachMemRange_loop K cb s (s + l) mi w2
                         else Some (Inr w2))))"
  unfolding ForEachMemRange_def
  by (subst ForEachMemRange_loop.simps)
    (simp add: piece_def block_end_def Let_def split: prod.splits sum.splits)

lemma loop_trace_aux:
  assumes run: "ForEachMemRange_loop K cb s e mi w = Some y"
  shows "(\<forall>a l off w. \<exists>evs. result_trace (cb a l off w) = trace w @ evs)
           \<longrightarrow> (\<exists>evs. result_trace y = trace w @ evs)"
  using run
proof (induct rule: ForEachMemRange_loop.raw_induct [rotated 1, consumes 1])
  case (1 f K cb s e mi w y)
  show ?case
  proof
    assume cb: "\<forall>a l off w. \<exists>evs. result_trace (cb a l off w) = trace w @ evs"
    obtain rc m where q: "svcQueryMemory K (trace w) (addr mi + size' mi) = (rc, m)"
      by (cases "svcQueryMemory K (trace w) (addr mi + size' mi)")
    let ?w1 = "emit (EvQueryMemory (addr mi + size' mi) rc m) w"
    let ?r = "cb (s + (max (addr m) s - s)) (min e (addr m + size' m) - (s + (max (addr m) s - s)))
                (max (addr m) s - s) ?w1"
    from cb obtain evs where r: "result_trace ?r = trace ?w1 @ evs" by blast
    show "\<exists>evs. result_trace y = trace w @ evs"
    proof (cases "R_FAILED rc")
      case True
      with 1(2) q have "y = Inl (Panic ''svcQueryMemory failed.'' ?w1)" by simp
      then show ?thesis by simp
    next
      case ok: False
      show ?thesis
      proof (cases ?r)
        case (Inl err)
        with 1(2) q ok have "y = Inl err" by (simp add: Let_def)
        with r Inl show ?thesis by simp
      next
        case (Inr w2)
        show ?thesis
        proof (cases "addr m + size' m < e")
          case False
          with 1(2) q ok Inr have "y = Inr w2" by (simp add: Let_def)
          with r Inr show ?thesis by simp
        next
          case True
          with 1(2) q ok Inr have "f K cb s e m w2 = Some y" by (simp add: Let_def)
          from 1(1) [OF this] cb obtain evs' where "result_trace y = trace w2 @ evs'" by blast
          with r Inr show ?thesis by simp
        qed
      qed
    qed
  qed
qed

lemma map_callback_trace:
  "\<exists>rc' evs. result_trace (map_callback K arw h a n off w)
      = trace w @ EvMapProcessMemory (arw + off) h a n rc' # evs"
  by (simp add: map_callback_def Let_def)

section \<open>The handle the kernel delivers\<close>

lemma ReceiveProcessHandleThreadMain_handle:
  "ReceiveProcessHandleThreadMain K s w = Inr w1 \<Longrightarrow>
     \<exists>v. svcReplyAndReceive K (trace w) s = (0, v) \<and> s_Handle w1 = v
        \<and> trace w1 = trace w @ [EvReplyAndReceive s 0 v, EvCloseHandle s, EvExitThread]"
  by (auto simp: ReceiveProcessHandleThreadMain_def Let_def R_FAILED_def
      split: prod.splits if_splits)

lemma GetViaIpcTrick_handle:
  "GetViaIpcTrick K w = Inr w1 \<Longrightarrow>
     \<exists>t s v evs. svcReplyAndReceive K t s = (0, v) \<and> s_Handle w1 = v
        \<and> trace w1 = trace w @ evs \<and> EvReplyAndReceive s 0 v \<in> set evs"
  by (auto simp: GetViaIpcTrick_def Let_def split: prod.splits if_splits sum.splits
      dest!: ReceiveProcessHandleThreadMain_handle)

lemma Get_fast_path:
  assumes "s_Handle w = INVALID_HANDLE"
    and "svcGetInfo K (trace w) InfoType_MesosphereCurrentProcess INVALID_HANDLE 0 = (rc, v)"
    and "\<not> R_FAILED rc"
  shows "Get K w
     = Inr (ucast v, (emit (EvGetInfo InfoType_MesosphereCurrentProcess INVALID_HANDLE 0 rc v) w)
                       \<lparr>s_Handle := ucast v\<rparr>)"
  using assms by (simp add: Get_def GetViaMesosphere_def R_FAILED_def)

lemma Get_delivers:
  assumes k: "hands_out_handles K" and first: "Get K w = Inr (h, w1)"
    and empty: "s_Handle w = INVALID_HANDLE"
  shows "h \<noteq> INVALID_HANDLE
       \<and> (\<exists>rc v evs. svcGetInfo K (trace w) InfoType_MesosphereCurrentProcess INVALID_HANDLE 0 = (rc, v)
             \<and> trace w1 = trace w @ EvGetInfo InfoType_MesosphereCurrentProcess INVALID_HANDLE 0 rc v # evs
             \<and> (\<not> R_FAILED rc \<longrightarrow> h = ucast v \<and> evs = [])
             \<and> (R_FAILED rc \<longrightarrow> (\<exists>s. EvReplyAndReceive s 0 h \<in> set evs)))"
proof -
  obtain rc v where g: "svcGetInfo K (trace w) InfoType_MesosphereCurrentProcess INVALID_HANDLE 0 = (rc, v)"
    by (cases "svcGetInfo K (trace w) InfoType_MesosphereCurrentProcess INVALID_HANDLE 0")
  let ?w0 = "emit (EvGetInfo InfoType_MesosphereCurrentProcess INVALID_HANDLE 0 rc v) w"
  show ?thesis
  proof (cases "R_FAILED rc")
    case False
    from Get_fast_path [OF empty g False] first
    have h: "h = ucast v" and w1: "w1 = ?w0\<lparr>s_Handle := ucast v\<rparr>" by simp_all
    from k g False have "(ucast v :: Handle) \<noteq> INVALID_HANDLE"
      unfolding hands_out_handles_def by blast
    with h w1 g False show ?thesis by (simp add: emit_def)
  next
    case True
    with first empty g have ipc: "GetViaIpcTrick K ?w0 = Inr w1" and hw: "h = s_Handle w1"
      by (auto simp: Get_def GetViaMesosphere_def split: sum.splits)
    from GetViaIpcTrick_handle [OF ipc] obtain t s x evs where
      r: "svcReplyAndReceive K t s = (0, x)" and x: "s_Handle w1 = x"
      and t: "trace w1 = trace ?w0 @ evs" and m: "EvReplyAndReceive s 0 x \<in> set evs"
      by blast
    from k r have "x \<noteq> INVALID_HANDLE"
      unfolding hands_out_handles_def by (auto simp: R_FAILED_def)
    with hw x t m g True show ?thesis by auto
  qed
qed

section \<open>Runs of the constructor and of the destructor\<close>

lemma run_callbacks_map:
  "run_callbacks (map_callback K arw h) s e q bs w
     = block_walk (svcMapProcessMemory K) EvMapProcessMemory ''svcMapProcessMemory failed.''
         arw h s e q bs w"
  by (induction bs arbitrary: q w)
    (simp_all add: map_callback_def Let_def R_FAILED_def split: prod.splits)

lemma run_callbacks_unmap:
  "run_callbacks (unmap_callback K c h) s e q bs w
     = block_walk (svcUnmapProcessMemory K) EvUnmapProcessMemory ''svcUnmapProcessMemory failed.''
         (GetAlignedRw c) h s e q bs w"
  by (induction bs arbitrary: q w)
    (simp_all add: unmap_callback_def Let_def R_FAILED_def split: prod.splits)

lemma memcmp_bytes_refl: "memcmp_bytes xs xs = 0"
  by (induction xs) simp_all

lemma memcmp_eq_iff:
  "memcmp mem a b n = 0 \<longleftrightarrow> bytes_at mem a n = bytes_at mem b n"
  using memcmp_zero(1) [of mem a b n] by (auto simp: memcmp_def memcmp_bytes_refl)

lemma ctor_total:
  assumes c: "covers (ALIGN_DOWN ro PAGE_SIZE)
                (GetAlignedSize \<lparr>m_Ro = ro, m_Rw = 0, m_Size = sz, m_RwReserve = 0\<rparr>) bs"
    and r: "reports K bs"
  shows "(let asz = GetAlignedSize \<lparr>m_Ro = ro, m_Rw = 0, m_Size = sz, m_RwReserve = 0\<rparr>;
            aro = ALIGN_DOWN ro PAGE_SIZE;
            arw = virtmemFindAslr K (trace w) asz 0;
            w1 = emit (EvFindAslr asz 0 arw) w;
            rsv = virtmemAddReservation K (trace w1) arw asz;
            w2 = emit (EvAddReservation arw asz rsv) w1;
            rw = arw + (ro - aro)
        in RwPages_ctor K ro sz w = Some
             (if arw = 0 then Inl (Panic ''Assertion failed: alignedRw != 0'' w1)
              else if rsv = 0 then Inl (Panic ''Assertion failed: reserve != NULL'' w2)
              else case Get K w2 of
                     Inl e \<Rightarrow> Inl e
                   | Inr (h, w3) \<Rightarrow>
                       (case block_walk (svcMapProcessMemory K) EvMapProcessMemory
                               ''svcMapProcessMemory failed.'' arw h aro (aro + asz) aro
                               (visited (aro + asz) bs) w3 of
                          Inl e \<Rightarrow> Inl e
                        | Inr w4 \<Rightarrow>
                            if bytes_at (memory K (trace w4)) ro sz
                                 = bytes_at (memory K (trace w4)) rw sz
                            then Inr (\<lparr>m_Owner = True,
                                       m_Claim = \<lparr>m_Ro = ro, m_Rw = rw, m_Size = sz,
                                                  m_RwReserve = rsv\<rparr>\<rparr>, w4)
                            else Inl (Panic
                              ''Assertion failed: memcmp((void*)claim.m_Ro, (void*)claim.m_Rw, size) == 0''
                              w4))))"
proof -
  have a: "GetAlignedSize \<lparr>m_Ro = ro, m_Rw = 0, m_Size = sz, m_RwReserve = x\<rparr>
      = ALIGN_UP (sz + (ro - ALIGN_DOWN ro PAGE_SIZE)) PAGE_SIZE"
    "GetAlignedRo \<lparr>m_Ro = ro, m_Rw = 0, m_Size = sz, m_RwReserve = x\<rparr> = ALIGN_DOWN ro PAGE_SIZE"
    for x
    by (simp_all add: GetAlignedSize_def GetAlignedRo_def)
  show ?thesis
    using walk_follows_chain [OF c r]
    by (simp add: RwPages_ctor_def Let_def a run_callbacks_map memcmp_eq_iff
        split: sum.splits prod.splits)
qed

lemma dtor_total:
  assumes o: "m_Owner this"
    and c: "covers (GetAlignedRo (m_Claim this)) (GetAlignedSize (m_Claim this)) bs"
    and r: "reports K bs"
  shows "RwPages_dtor K this w = Some
     (case Get K (emit (EvICacheInvalidate (m_Ro (m_Claim this)) (m_Size (m_Claim this)))
                   (emit (EvDCacheFlush (m_Rw (m_Claim this)) (m_Size (m_Claim this))) w)) of
        Inl e \<Rightarrow> Inl e
      | Inr (h, w3) \<Rightarrow>
          (case block_walk (svcUnmapProcessMemory K) EvUnmapProcessMemory
                  ''svcUnmapProcessMemory failed.'' (GetAlignedRw (m_Claim this)) h
                  (GetAlignedRo (m_Claim this))
                  (GetAlignedRo (m_Claim this) + GetAlignedSize (m_Claim this))
                  (GetAlignedRo (m_Claim this))
                  (visited (GetAlignedRo (m_Claim this) + GetAlignedSize (m_Claim this)) bs) w3 of
             Inl e \<Rightarrow> Inl e
           | Inr w4 \<Rightarrow> Inr (emit (EvRemoveReservation (m_RwReserve (m_Claim this))) w4)))"
  using o
  by (simp add: RwPages_dtor_def Let_def walk_follows_chain [OF c r] run_callbacks_unmap
      split: sum.splits prod.splits)

lemma ctor_returned:
  assumes run: "RwPages_ctor K ro sz w = Some r"
  shows "(\<exists>msg wp. r = Inl (Panic msg wp))
       \<or> (\<exists>this w' evs. r = Inr (this, w')
            \<and> m_Owner this \<and> m_Ro (m_Claim this) = ro \<and> m_Size (m_Claim this) = sz
            \<and> m_RwReserve (m_Claim this) \<noteq> 0
            \<and> bytes_at (memory K (trace w')) ro sz
                = bytes_at (memory K (trace w')) (m_Rw (m_Claim this)) sz
            \<and> (\<forall>k<unat sz. memory K (trace w') (ro + of_nat k)
                              = memory K (trace w') (m_Rw (m_Claim this) + of_nat k))
            \<and> trace w' = trace w @ evs \<and> (\<exists>ev\<in>set evs. is_map ev)
            \<and> (\<forall>ev\<in>set evs. \<not> fatal_failure ev))"
proof (cases r)
  case (Inl e)
  then show ?thesis by (cases e) simp
next
  case (Inr p)
  obtain this w' where p: "p = (this, w')" by (cases p)
  let ?c0 = "\<lparr>m_Ro = ro, m_Rw = 0, m_Size = sz, m_RwReserve = 0\<rparr>"
  from run [unfolded Inr p] obtain arw rsv h w3 where
    arw: "arw \<noteq> 0" and rsv: "rsv \<noteq> 0"
    and get: "Get K (emit (EvAddReservation arw (GetAlignedSize ?c0) rsv)
         (emit (EvFindAslr (GetAlignedSize ?c0) 0 arw) w)) = Inr (h, w3)"
    and walk: "ForEachMemRange K (map_callback K arw h) (ALIGN_DOWN ro PAGE_SIZE)
        (GetAlignedSize ?c0) w3 = Some (Inr w')"
    and obj: "this = \<lparr>m_Owner = True, m_Claim = \<lparr>m_Ro = ro,
               m_Rw = arw + (ro - ALIGN_DOWN ro PAGE_SIZE), m_Size = sz, m_RwReserve = rsv\<rparr>\<rparr>"
    and cmp: "memcmp (memory K (trace w')) ro (arw + (ro - ALIGN_DOWN ro PAGE_SIZE)) sz = 0"
    by (rule ctor_Inr)
  from Get_trace [OF get] obtain hs where
    hs: "trace w3 = trace w @ [EvFindAslr (GetAlignedSize ?c0) 0 arw,
                              EvAddReservation arw (GetAlignedSize ?c0) rsv] @ hs"
    and hs_ok: "\<forall>e\<in>set hs. handle_event e \<and> \<not> fatal_failure e"
    by auto
  let ?G = "\<lambda>a off ev. \<exists>l. ev = EvMapProcessMemory (arw + off) h a l 0"
  have "walk_post ?G (ALIGN_DOWN ro PAGE_SIZE) w3 w'"
    using walk by (rule walk_events) (auto dest: map_callback_event)
  then obtain ws where ws: "trace w' = trace w3 @ ws"
    and ws_map: "\<exists>ev\<in>set ws. \<exists>off. ?G (ALIGN_DOWN ro PAGE_SIZE + off) off ev"
    and ws_ok: "\<forall>ev\<in>set ws. (\<exists>q m. ev = EvQueryMemory q 0 m)
                  \<or> (\<exists>off. ?G (ALIGN_DOWN ro PAGE_SIZE + off) off ev)"
    unfolding walk_post_def by blast
  let ?evs = "[EvFindAslr (GetAlignedSize ?c0) 0 arw,
               EvAddReservation arw (GetAlignedSize ?c0) rsv] @ hs @ ws"
  have t: "trace w' = trace w @ ?evs" using hs ws by simp
  from ws_map obtain ev where "ev \<in> set ws" and "is_map ev" by auto
  then have m: "\<exists>ev\<in>set ?evs. is_map ev" by auto
  have ok: "\<forall>ev\<in>set ?evs. \<not> fatal_failure ev"
    using arw rsv hs_ok ws_ok by (auto simp: R_FAILED_def)
  have formed: "m_Owner this" "m_Ro (m_Claim this) = ro" "m_Size (m_Claim this) = sz"
    "m_RwReserve (m_Claim this) \<noteq> 0"
    using rsv by (simp_all add: obj)
  have rw: "m_Rw (m_Claim this) = arw + (ro - ALIGN_DOWN ro PAGE_SIZE)"
    by (simp add: obj)
  note same = memcmp_zero [OF cmp, folded rw]
  have "r = Inr (this, w') \<and> m_Owner this \<and> m_Ro (m_Claim this) = ro
      \<and> m_Size (m_Claim this) = sz \<and> m_RwReserve (m_Claim this) \<noteq> 0
      \<and> bytes_at (memory K (trace w')) ro sz
          = bytes_at (memory K (trace w')) (m_Rw (m_Claim this)) sz
      \<and> (\<forall>k<unat sz. memory K (trace w') (ro + of_nat k)
                        = memory K (trace w') (m_Rw (m_Claim this) + of_nat k))
      \<and> trace w' = trace w @ ?evs \<and> (\<exists>ev\<in>set ?evs. is_map ev)
      \<and> (\<forall>ev\<in>set ?evs. \<not> fatal_failure ev)"
    using formed same t m ok Inr p by (intro conjI) blast+
  then show ?thesis by blast
qed

lemma dtor_returned:
  "(\<not> m_Owner this \<longrightarrow> RwPages_dtor K this w = Some (Inr w))
   \<and> (m_Owner this \<longrightarrow>
        (\<forall>w'. RwPages_dtor K this w = Some (Inr w') \<longrightarrow>
           (\<exists>hs us. trace w'
                = trace w @ [EvDCacheFlush (m_Rw (m_Claim this)) (m_Size (m_Claim this)),
                             EvICacheInvalidate (m_Ro (m_Claim this)) (m_Size (m_Claim this))]
                    @ hs @ us @ [EvRemoveReservation (m_RwReserve (m_Claim this))]
              \<and> (\<forall>e\<in>set hs. handle_event e)
              \<and> (\<forall>e\<in>set us. unmap_walk_event (GetAlignedRw (m_Claim this)) (s_Handle w')
                                 (GetAlignedRo (m_Claim this)) e)
              \<and> (\<exists>e\<in>set us. is_unmap e))))"
proof (intro conjI impI allI)
  assume "\<not> m_Owner this"
  then show "RwPages_dtor K this w = Some (Inr w)" by (simp add: RwPages_dtor_def)
next
  fix w'
  assume own: "m_Owner this" and run: "RwPages_dtor K this w = Some (Inr w')"
  let ?c = "m_Claim this"
  from run own obtain h w3 w4 where
    get: "Get K (emit (EvICacheInvalidate (m_Ro ?c) (m_Size ?c))
         (emit (EvDCacheFlush (m_Rw ?c) (m_Size ?c)) w)) = Inr (h, w3)"
    and walk: "ForEachMemRange K (unmap_callback K ?c h) (GetAlignedRo ?c)
        (GetAlignedSize ?c) w3 = Some (Inr w4)"
    and w': "w' = emit (EvRemoveReservation (m_RwReserve ?c)) w4"
    by (rule dtor_Inr)
  from Get_trace [OF get] obtain hs where
    hs: "trace w3 = trace w @ [EvDCacheFlush (m_Rw ?c) (m_Size ?c),
                              EvICacheInvalidate (m_Ro ?c) (m_Size ?c)] @ hs"
    and hs_ok: "\<forall>e\<in>set hs. handle_event e"
    by auto
  have h3: "s_Handle w3 = h" using get by (rule Get_handle)
  let ?G = "\<lambda>a off ev. \<exists>l. ev = EvUnmapProcessMemory (GetAlignedRw ?c + off) h a l 0"
  have "walk_post ?G (GetAlignedRo ?c) w3 w4"
    using walk by (rule walk_events) (auto dest: unmap_callback_event)
  then obtain us where us: "trace w4 = trace w3 @ us" and h4: "s_Handle w4 = s_Handle w3"
    and us_un: "\<exists>ev\<in>set us. \<exists>off. ?G (GetAlignedRo ?c + off) off ev"
    and us_ok: "\<forall>ev\<in>set us. (\<exists>q m. ev = EvQueryMemory q 0 m)
                  \<or> (\<exists>off. ?G (GetAlignedRo ?c + off) off ev)"
    unfolding walk_post_def by blast
  have hw: "s_Handle w' = h" using w' h4 h3 by simp
  have t: "trace w' = trace w @ [EvDCacheFlush (m_Rw ?c) (m_Size ?c),
                                EvICacheInvalidate (m_Ro ?c) (m_Size ?c)]
             @ hs @ us @ [EvRemoveReservation (m_RwReserve ?c)]"
    using w' us hs by simp
  have ev: "\<forall>e\<in>set us. unmap_walk_event (GetAlignedRw ?c) (s_Handle w') (GetAlignedRo ?c) e"
    unfolding hw using us_ok by auto
  from us_un obtain e where "e \<in> set us" and "is_unmap e" by auto
  then have un: "\<exists>e\<in>set us. is_unmap e" by auto
  from t hs_ok ev un
  show "\<exists>hs us. trace w'
                = trace w @ [EvDCacheFlush (m_Rw ?c) (m_Size ?c),
                             EvICacheInvalidate (m_Ro ?c) (m_Size ?c)]
                    @ hs @ us @ [EvRemoveReservation (m_RwReserve ?c)]
              \<and> (\<forall>e\<in>set hs. handle_event e)
              \<and> (\<forall>e\<in>set us. unmap_walk_event (GetAlignedRw ?c) (s_Handle w') (GetAlignedRo ?c) e)
              \<and> (\<exists>e\<in>set us. is_unmap e)"
    by blast
qed

lemma Get_fallback:
  assumes "s_Handle w = INVALID_HANDLE"
    and "svcGetInfo K (trace w) InfoType_MesosphereCurrentProcess INVALID_HANDLE 0 = (rc, v)"
    and "R_FAILED rc"
    and "\<forall>t. svcCreateSession K t = (0, srv, cli)"
    and "\<forall>t. svcCreateThread K t srv = (0, th)"
    and "\<forall>t. svcStartThread K t th = 0"
    and "\<forall>t. svcSendSyncRequest K t cli = r"
    and "\<forall>t. svcReplyAndReceive K t srv = (0, x)"
    and "\<forall>t. svcWaitSynchronizationSingle K t th = 0"
  shows "Get K w
     = Inr (x, w\<lparr>trace := trace w @
                 [EvGetInfo InfoType_MesosphereCurrentProcess INVALID_HANDLE 0 rc v,
                  EvCreateSession 0 srv cli, EvCreateThread srv 0 th, EvStartThread th 0,
                  EvSendSyncRequest cli r, EvReplyAndReceive srv 0 x, EvCloseHandle srv,
                  EvExitThread, EvCloseHandle cli, EvWaitSynchronizationSingle th 0,
                  EvCloseHandle th],
               s_Handle := x\<rparr>)"
  using assms
  by (simp add: Get_def GetViaMesosphere_def GetViaIpcTrick_def
      ReceiveProcessHandleThreadMain_def emit_def R_FAILED_def)

lemma flaky_reports: "reports flaky_kernel example_blocks"
  using example_reports
  by (simp add: reports_def flaky_kernel_def example_kernel_def synthetic_kernel_def)

lemma flaky_memory:
  "bytes_at (memory flaky_kernel flaky_trace) 0x7100001FF8 0x10
     = bytes_at (memory flaky_kernel flaky_trace) 0x2000000FF8 0x10"
  by (simp add: bytes_at_def flaky_kernel_def synthetic_kernel_def flaky_trace_def upt_16)

lemma example_covers: "covers 0x7100001000 0x2000 example_blocks"
  by (simp add: covers_def example_chain) (simp add: example_blocks_def holds_def block_end_def)

lemma example_visited:
  "visited (0x7100001000 + 0x2000) example_blocks
     = [\<lparr>addr = 0x7100000000, size' = 0x2000\<rparr>, \<lparr>addr = 0x7100002000, size' = 0x1000\<rparr>]"
  by (simp add: example_blocks_def block_end_def)

lemma example_aligned:
  "GetAlignedSize \<lparr>m_Ro = 0x7100001FF8, m_Rw = rw, m_Size = 0x10, m_RwReserve = r\<rparr> = 0x2000"
  "GetAlignedRo \<lparr>m_Ro = 0x7100001FF8, m_Rw = rw, m_Size = 0x10, m_RwReserve = r\<rparr> = 0x7100001000"
  "ALIGN_DOWN 0x7100001FF8 PAGE_SIZE = 0x7100001000"
  "GetAlignedRw \<lparr>m_Ro = ro, m_Rw = 0x2000000FF8, m_Size = sz, m_RwReserve = r\<rparr> = 0x2000000000"
  by (simp_all add: GetAlignedSize_def GetAlignedRo_def GetAlignedRw_def ALIGN_UP_def
      ALIGN_DOWN_def PAGE_SIZE_def)

section \<open>Claims\<close>

subsection \<open>C6: the build-time sanity check\<close>

text \<open>
  C6. The claim: the sanity check accepts a configuration exactly when \<open>JitSize\<close> and
  \<open>InlinePoolSize\<close> are both multiples of the page size. The second assertion of the
  source compares the rounded \<open>InlinePoolSize\<close> with \<open>JitSize\<close>, under the message
  "InlinePoolSize is not aligned". So the check rejects \<open>JitSize = 0x1000\<close>,
  \<open>InlinePoolSize = 0x2000\<close>, where both sizes are page multiples, and accepts
  \<open>JitSize = 0x1000\<close>, \<open>InlinePoolSize = 1\<close>, where the second is not.
\<close>

theorem sanity_check_slip:
  "ALIGN_UP 0x1000 PAGE_SIZE = 0x1000 \<and> ALIGN_UP 0x2000 PAGE_SIZE = 0x2000
   \<and> \<not> setting_sanity_checks 0x1000 0x2000
   \<and> ALIGN_UP 0x1 PAGE_SIZE \<noteq> 0x1 \<and> setting_sanity_checks 0x1000 0x1"
  by (simp add: setting_sanity_checks_def JitSize_assert_def InlinePoolSize_assert_def
      ALIGN_UP_def PAGE_SIZE_def)

subsection \<open>C8: the aligned size and the aligned base\<close>

text \<open>
  C8, as stated, fails for sizes within one page of \<open>2 ^ 64\<close>: \<open>ALIGN_UP\<close> wraps around,
  and for \<open>size = 0xFFFFFFFFFFFFFFFF\<close> at \<open>ro_base = 0\<close> the aligned size is 0.
\<close>

theorem aligned_size_wraps:
  "\<not> (\<forall>c. m_Size c \<le> GetAlignedSize c)"
proof
  assume "\<forall>c. m_Size c \<le> GetAlignedSize c"
  then have "m_Size \<lparr>m_Ro = 0, m_Rw = 0, m_Size = 0xFFFFFFFFFFFFFFFF, m_RwReserve = 0\<rparr>
      \<le> GetAlignedSize \<lparr>m_Ro = 0, m_Rw = 0, m_Size = 0xFFFFFFFFFFFFFFFF, m_RwReserve = 0\<rparr>"
    by blast
  then show False
    by (simp add: GetAlignedSize_def GetAlignedRo_def ALIGN_UP_def ALIGN_DOWN_def PAGE_SIZE_def)
qed

text \<open>
  C8 (amended). For every \<open>ro_base\<close> and every \<open>size\<close>, the aligned size is a multiple of
  the page size and \<open>aligned_ro \<le> ro_base\<close>. Whenever \<open>size\<close> plus the offset of
  \<open>ro_base\<close> in its page is at most \<open>2 ^ 64 - 0x1000\<close> (so that rounding up does not wrap
  around; this includes \<open>size = 0\<close> and sizes spanning a page boundary),
  \<open>aligned_size \<ge> size\<close>, and the aligned span covers the offset and the size together.
\<close>

theorem aligned_size_bounds:
  "unat (GetAlignedSize c) mod unat PAGE_SIZE = 0
   \<and> GetAlignedRo c \<le> m_Ro c
   \<and> (unat (m_Size c) + unat (m_Ro c) mod 4096 \<le> 2 ^ 64 - 4096 \<longrightarrow>
        m_Size c \<le> GetAlignedSize c
        \<and> unat (m_Ro c - GetAlignedRo c) + unat (m_Size c) \<le> unat (GetAlignedSize c))"
proof (intro conjI impI)
  show "unat (GetAlignedSize c) mod unat PAGE_SIZE = 0"
    using ALIGN_UP_page_multiple [of "m_Size c + (m_Ro c - GetAlignedRo c)"]
    by (simp add: GetAlignedSize_def PAGE_SIZE_def)
  show "GetAlignedRo c \<le> m_Ro c"
    unfolding GetAlignedRo_def by (rule ALIGN_DOWN_le)
  assume h: "unat (m_Size c) + unat (m_Ro c) mod 4096 \<le> 2 ^ 64 - 4096"
  let ?d = "m_Ro c - GetAlignedRo c"
  have d: "unat ?d = unat (m_Ro c) mod 4096"
    unfolding GetAlignedRo_def by (rule unat_offset_in_page)
  have s: "unat (m_Size c + ?d) = unat (m_Size c) + unat ?d"
    using h d by (simp add: unat_word_ariths)
  have "m_Size c + ?d \<le> ALIGN_UP (m_Size c + ?d) PAGE_SIZE"
    by (rule ALIGN_UP_ge) (use h d s in simp)
  then have le: "unat (m_Size c) + unat ?d \<le> unat (GetAlignedSize c)"
    by (simp add: word_le_nat_alt s GetAlignedSize_def)
  then show "m_Size c \<le> GetAlignedSize c"
    by (simp add: word_le_nat_alt)
  from le show "unat (m_Ro c - GetAlignedRo c) + unat (m_Size c) \<le> unat (GetAlignedSize c)"
    by simp
qed

theorem aligned_size_bounds_witness:
  "unat (m_Size \<lparr>m_Ro = 0x7100000FF8, m_Rw = 0, m_Size = 0x10, m_RwReserve = 0\<rparr>)
     + unat (m_Ro \<lparr>m_Ro = 0x7100000FF8, m_Rw = 0, m_Size = 0x10, m_RwReserve = 0\<rparr>) mod 4096
     \<le> 2 ^ 64 - 4096
   \<and> GetAlignedSize \<lparr>m_Ro = 0x7100000FF8, m_Rw = 0, m_Size = 0x10, m_RwReserve = 0\<rparr> = 0x2000
   \<and> GetAlignedRo \<lparr>m_Ro = 0x7100000FF8, m_Rw = 0, m_Size = 0x10, m_RwReserve = 0\<rparr> = 0x7100000000
   \<and> m_Size \<lparr>m_Ro = 0x7100000FF8, m_Rw = 0, m_Size = 0x10, m_RwReserve = 0\<rparr>
       \<le> GetAlignedSize \<lparr>m_Ro = 0x7100000FF8, m_Rw = 0, m_Size = 0x10, m_RwReserve = 0\<rparr>"
  using aligned_size_bounds [of "\<lparr>m_Ro = 0x7100000FF8, m_Rw = 0, m_Size = 0x10, m_RwReserve = 0\<rparr>"]
  by (simp add: GetAlignedSize_def GetAlignedRo_def ALIGN_UP_def ALIGN_DOWN_def PAGE_SIZE_def)

subsection \<open>C7: the SoC classification\<close>

text \<open>
  C7. When \<open>smcGetConfig\<close> succeeds with hardware type \<open>v\<close>, \<open>InitSocType\<close> sets
  \<open>s_SocType\<close> to \<open>Erista\<close> for Icosa and Copper and to \<open>Mariko\<close> for Hoag, Iowa, Calcio
  and Aula, so that exactly one of \<open>IsSocErista\<close> and \<open>IsSocMariko\<close> holds afterwards; for
  every other value it panics with the message "unreachable" and \<open>s_SocType\<close> is not
  assigned: no value outside the six known ones defaults to a family. A failed
  \<open>smcGetConfig\<close> panics as well, by the assertion.
\<close>

theorem InitSocType_classifies:
  assumes q: "smcGetConfig K (trace w) SplConfigItem_HardwareType = (rc, v)"
  shows "(R_SUCCEEDED rc \<and> ucast v \<in> {SplHardwareType_Icosa, SplHardwareType_Copper} \<longrightarrow>
            (\<exists>w'. InitSocType K w = Inr w' \<and> IsSocErista w' \<and> \<not> IsSocMariko w'
               \<and> w' = (emit (EvGetConfig SplConfigItem_HardwareType rc v) w)\<lparr>s_SocType := Erista\<rparr>))
       \<and> (R_SUCCEEDED rc \<and> ucast v \<in> {SplHardwareType_Hoag, SplHardwareType_Iowa,
                                       SplHardwareType_Calcio, SplHardwareType_Aula} \<longrightarrow>
            (\<exists>w'. InitSocType K w = Inr w' \<and> IsSocMariko w' \<and> \<not> IsSocErista w'
               \<and> w' = (emit (EvGetConfig SplConfigItem_HardwareType rc v) w)\<lparr>s_SocType := Mariko\<rparr>))
       \<and> (R_SUCCEEDED rc \<and> ucast v \<notin> {SplHardwareType_Icosa, SplHardwareType_Copper,
                                       SplHardwareType_Hoag, SplHardwareType_Iowa,
                                       SplHardwareType_Calcio, SplHardwareType_Aula} \<longrightarrow>
            InitSocType K w
              = Inl (Panic ''unreachable'' (emit (EvGetConfig SplConfigItem_HardwareType rc v) w)))
       \<and> (\<not> R_SUCCEEDED rc \<longrightarrow> (\<exists>msg. InitSocType K w
              = Inl (Panic msg (emit (EvGetConfig SplConfigItem_HardwareType rc v) w))))"
  using q
  by (auto simp: InitSocType_def IsSocErista_def IsSocMariko_def
      SplHardwareType_Icosa_def SplHardwareType_Copper_def
      SplHardwareType_Hoag_def SplHardwareType_Iowa_def SplHardwareType_Calcio_def
      SplHardwareType_Aula_def)

theorem InitSocType_classifies_witness:
  "InitSocType (synthetic_kernel [] 0 0x8003 0) world0
     = Inr \<lparr>trace = [EvGetConfig 5 0 0], s_Handle = 0, s_SocType = Erista\<rparr>
   \<and> InitSocType (synthetic_kernel [] 0 0x8003 3) world0
     = Inr \<lparr>trace = [EvGetConfig 5 0 3], s_Handle = 0, s_SocType = Mariko\<rparr>
   \<and> InitSocType (synthetic_kernel [] 0 0x8003 6) world0
     = Inl (Panic ''unreachable'' \<lparr>trace = [EvGetConfig 5 0 6], s_Handle = 0, s_SocType = Erista\<rparr>)"
  using InitSocType_classifies [of "synthetic_kernel [] 0 0x8003 0" world0 0 0]
    InitSocType_classifies [of "synthetic_kernel [] 0 0x8003 3" world0 0 3]
    InitSocType_classifies [of "synthetic_kernel [] 0 0x8003 6" world0 0 6]
  by (simp add: synthetic_kernel_def world0_def emit_def R_SUCCEEDED_def INVALID_HANDLE_def
      SplConfigItem_HardwareType_def SplHardwareType_Icosa_def SplHardwareType_Copper_def
      SplHardwareType_Hoag_def SplHardwareType_Iowa_def SplHardwareType_Calcio_def
      SplHardwareType_Aula_def)

subsection \<open>C9: the panic message is terminated inside its buffer\<close>

text \<open>
  C9. For every \<open>file\<close>, \<open>line\<close> and \<open>msg\<close>, and whatever the 1024-byte static buffer
  held before, \<open>megaton_format_panic_message\<close> leaves a 1024-byte buffer whose C string is
  the formatted message cut to at most 1023 characters, and the byte right after that
  string, inside the buffer, is the terminating NUL.
\<close>

theorem panic_message_terminated:
  assumes len: "length PANIC_FMT_BUFFER = 1024"
  shows "length (megaton_format_panic_message PANIC_FMT_BUFFER file line msg) = 1024
       \<and> c_str (megaton_format_panic_message PANIC_FMT_BUFFER file line msg)
           = take 1023 (panic_format file line msg)
       \<and> length (c_str (megaton_format_panic_message PANIC_FMT_BUFFER file line msg)) \<le> 1023
       \<and> megaton_format_panic_message PANIC_FMT_BUFFER file line msg
            ! length (c_str (megaton_format_panic_message PANIC_FMT_BUFFER file line msg)) = NUL"
proof -
  let ?s = "panic_format file line msg"
  let ?xs = "take 1023 ?s"
  let ?r = "megaton_format_panic_message PANIC_FMT_BUFFER file line msg"
  have k: "take (min (length ?s) 1023) ?s = ?xs" by (simp add: min_def)
  have "length ?xs \<le> 1023" by simp
  from update_keeps_terminator [OF this]
  obtain ys where "(?xs @ NUL # drop (min (length ?s) 1023 + 1) PANIC_FMT_BUFFER)[1023 := NUL]
      = ?xs @ NUL # ys"
    by blast
  then have r: "?r = ?xs @ NUL # ys"
    by (simp add: megaton_format_panic_message_def snprintf_def k)
  have nn: "NUL \<notin> set ?xs"
    using NUL_notin_panic_format by (auto dest: in_set_takeD)
  have c: "c_str ?r = ?xs"
    unfolding r using nn by (rule c_str_terminated)
  show ?thesis
  proof (intro conjI)
    show "length ?r = 1024"
      using len by (simp add: megaton_format_panic_message_def snprintf_def Let_def)
    show "c_str ?r = ?xs" by (rule c)
    show "length (c_str ?r) \<le> 1023" unfolding c by simp
    show "?r ! length (c_str ?r) = NUL"
      unfolding c unfolding r by (simp add: nth_append)
  qed
qed

theorem panic_message_terminated_witness:
  "length (replicate 1024 (CHR ''x'')) = 1024
   \<and> c_str (megaton_format_panic_message (replicate 1024 (CHR ''x'')) ''rw_pages.cpp'' 24
         ''svcQueryMemory failed.'')
      = ''Panic at rw_pages.cpp:24:'' @ [CHR 0x0A] @ ''  svcQueryMemory failed.''"
  using panic_message_terminated [of "replicate 1024 (CHR ''x'')" "''rw_pages.cpp''" 24
      "''svcQueryMemory failed.''"]
  by (simp add: panic_format_def c_str_def NUL_def show_int_def show_nat.simps digit_char_def)

subsection \<open>C5: the process handle is acquired once\<close>

text \<open>
  C5. The kernel never hands out \<open>INVALID_HANDLE\<close>, the value that marks the cache as
  empty: a successful \<open>svcGetInfo\<close> query for the current process and a successful
  \<open>svcReplyAndReceive\<close> deliver another value. For such a kernel, \<open>proc_handle::Get\<close>
  behaves as follows. With a handle in the cache it returns that handle and the state as it
  is, making no call. With an empty cache it runs the acquisition: when the fast path
  succeeds, the call returns the handle the kernel delivered, has made the one
  \<open>svcGetInfo\<close> query and has stored the handle; when the fast path fails and the calls
  of the fallback succeed, it returns the handle the server side of the session received,
  has made the calls of the fallback in their order and has stored the handle. Whenever a
  call returns a handle \<open>h\<close>, \<open>h\<close> is not \<open>INVALID_HANDLE\<close>, it is the handle stored in the
  state, and every later call returns the same \<open>h\<close> and leaves the state as it is,
  whatever the kernel would answer: it makes no kernel call, so neither the fast path nor
  the fallback runs again. A first call made with an empty cache has begun with the
  \<open>svcGetInfo\<close> query; it has made no other call when the query succeeded, and it has
  received \<open>h\<close> through the session when the query failed.
\<close>

theorem Get_twice:
  assumes k: "hands_out_handles K"
  shows "(s_Handle w \<noteq> INVALID_HANDLE \<longrightarrow> Get K w = Inr (s_Handle w, w))
       \<and> (\<forall>rc v. s_Handle w = INVALID_HANDLE
             \<and> svcGetInfo K (trace w) InfoType_MesosphereCurrentProcess INVALID_HANDLE 0 = (rc, v)
             \<and> \<not> R_FAILED rc \<longrightarrow>
            Get K w
              = Inr (ucast v,
                     (emit (EvGetInfo InfoType_MesosphereCurrentProcess INVALID_HANDLE 0 rc v) w)
                       \<lparr>s_Handle := ucast v\<rparr>))
       \<and> (\<forall>rc v srv cli th r x. s_Handle w = INVALID_HANDLE
             \<and> svcGetInfo K (trace w) InfoType_MesosphereCurrentProcess INVALID_HANDLE 0 = (rc, v)
             \<and> R_FAILED rc
             \<and> (\<forall>t. svcCreateSession K t = (0, srv, cli))
             \<and> (\<forall>t. svcCreateThread K t srv = (0, th))
             \<and> (\<forall>t. svcStartThread K t th = 0)
             \<and> (\<forall>t. svcSendSyncRequest K t cli = r)
             \<and> (\<forall>t. svcReplyAndReceive K t srv = (0, x))
             \<and> (\<forall>t. svcWaitSynchronizationSingle K t th = 0) \<longrightarrow>
            Get K w
              = Inr (x, w\<lparr>trace := trace w @
                  [EvGetInfo InfoType_MesosphereCurrentProcess INVALID_HANDLE 0 rc v,
                   EvCreateSession 0 srv cli, EvCreateThread srv 0 th, EvStartThread th 0,
                   EvSendSyncRequest cli r, EvReplyAndReceive srv 0 x, EvCloseHandle srv,
                   EvExitThread, EvCloseHandle cli, EvWaitSynchronizationSingle th 0,
                   EvCloseHandle th],
                 s_Handle := x\<rparr>))
       \<and> (\<forall>h w1. Get K w = Inr (h, w1) \<longrightarrow>
            h \<noteq> INVALID_HANDLE \<and> s_Handle w1 = h
            \<and> (\<forall>K'. Get K' w1 = Inr (h, w1))
            \<and> (s_Handle w = INVALID_HANDLE \<longrightarrow>
                 (\<exists>rc v evs.
                    svcGetInfo K (trace w) InfoType_MesosphereCurrentProcess INVALID_HANDLE 0 = (rc, v)
                    \<and> trace w1
                        = trace w @ EvGetInfo InfoType_MesosphereCurrentProcess INVALID_HANDLE 0 rc v # evs
                    \<and> (\<not> R_FAILED rc \<longrightarrow> h = ucast v \<and> evs = [])
                    \<and> (R_FAILED rc \<longrightarrow> (\<exists>s. EvReplyAndReceive s 0 h \<in> set evs)))))"
proof (intro conjI allI impI)
  assume "s_Handle w \<noteq> INVALID_HANDLE"
  then show "Get K w = Inr (s_Handle w, w)" by (simp add: Get_def)
next
  fix rc v
  assume "s_Handle w = INVALID_HANDLE
      \<and> svcGetInfo K (trace w) InfoType_MesosphereCurrentProcess INVALID_HANDLE 0 = (rc, v)
      \<and> \<not> R_FAILED rc"
  then show "Get K w
      = Inr (ucast v, (emit (EvGetInfo InfoType_MesosphereCurrentProcess INVALID_HANDLE 0 rc v) w)
                        \<lparr>s_Handle := ucast v\<rparr>)"
    by (intro Get_fast_path) simp_all
next
  fix rc v srv cli th r x
  assume "s_Handle w = INVALID_HANDLE
      \<and> svcGetInfo K (trace w) InfoType_MesosphereCurrentProcess INVALID_HANDLE 0 = (rc, v)
      \<and> R_FAILED rc
      \<and> (\<forall>t. svcCreateSession K t = (0, srv, cli))
      \<and> (\<forall>t. svcCreateThread K t srv = (0, th))
      \<and> (\<forall>t. svcStartThread K t th = 0)
      \<and> (\<forall>t. svcSendSyncRequest K t cli = r)
      \<and> (\<forall>t. svcReplyAndReceive K t srv = (0, x))
      \<and> (\<forall>t. svcWaitSynchronizationSingle K t th = 0)"
  then show "Get K w
      = Inr (x, w\<lparr>trace := trace w @
                  [EvGetInfo InfoType_MesosphereCurrentProcess INVALID_HANDLE 0 rc v,
                   EvCreateSession 0 srv cli, EvCreateThread srv 0 th, EvStartThread th 0,
                   EvSendSyncRequest cli r, EvReplyAndReceive srv 0 x, EvCloseHandle srv,
                   EvExitThread, EvCloseHandle cli, EvWaitSynchronizationSingle th 0,
                   EvCloseHandle th],
                 s_Handle := x\<rparr>)"
    by (intro Get_fallback) simp_all
next
  fix h w1
  assume first: "Get K w = Inr (h, w1)"
  have hw: "s_Handle w1 = h" using first by (rule Get_handle)
  show valid: "h \<noteq> INVALID_HANDLE"
  proof (cases "s_Handle w = INVALID_HANDLE")
    case True
    from Get_delivers [OF k first True] show ?thesis by blast
  next
    case False
    with first show ?thesis by (auto simp: Get_def)
  qed
  show "s_Handle w1 = h" by (rule hw)
  { fix K'
    from hw valid show "Get K' w1 = Inr (h, w1)" by (simp add: Get_def) }
  { assume "s_Handle w = INVALID_HANDLE"
    from Get_delivers [OF k first this]
    show "\<exists>rc v evs.
        svcGetInfo K (trace w) InfoType_MesosphereCurrentProcess INVALID_HANDLE 0 = (rc, v)
        \<and> trace w1 = trace w @ EvGetInfo InfoType_MesosphereCurrentProcess INVALID_HANDLE 0 rc v # evs
        \<and> (\<not> R_FAILED rc \<longrightarrow> h = ucast v \<and> evs = [])
        \<and> (R_FAILED rc \<longrightarrow> (\<exists>s. EvReplyAndReceive s 0 h \<in> set evs))"
      by blast }
qed

theorem Get_twice_witness:
  "hands_out_handles (synthetic_kernel [] 0xF001 0x8003 0)
   \<and> hands_out_handles (synthetic_kernel [] 0 0x8003 0)
   \<and> Get (synthetic_kernel [] 0 0x8003 0) world0
     = Inr (0x8003, \<lparr>trace = [EvGetInfo 65001 0 0 0 0x8003],
                      s_Handle = 0x8003, s_SocType = Erista\<rparr>)
   \<and> Get (synthetic_kernel [] 0xF001 0x8003 0) world0
     = Inr (0x8003, \<lparr>trace = [EvGetInfo 65001 0 0 0xF001 0x8003, EvCreateSession 0 0x11 0x12,
          EvCreateThread 0x11 0 0x13, EvStartThread 0x13 0, EvSendSyncRequest 0x12 0,
          EvReplyAndReceive 0x11 0 0x8003, EvCloseHandle 0x11, EvExitThread, EvCloseHandle 0x12,
          EvWaitSynchronizationSingle 0x13 0, EvCloseHandle 0x13],
        s_Handle = 0x8003, s_SocType = Erista\<rparr>)
   \<and> Get (synthetic_kernel [] 0 0x8004 0)
        \<lparr>trace = [EvGetInfo 65001 0 0 0xF001 0x8003, EvCreateSession 0 0x11 0x12,
          EvCreateThread 0x11 0 0x13, EvStartThread 0x13 0, EvSendSyncRequest 0x12 0,
          EvReplyAndReceive 0x11 0 0x8003, EvCloseHandle 0x11, EvExitThread, EvCloseHandle 0x12,
          EvWaitSynchronizationSingle 0x13 0, EvCloseHandle 0x13],
        s_Handle = 0x8003, s_SocType = Erista\<rparr>
     = Inr (0x8003, \<lparr>trace = [EvGetInfo 65001 0 0 0xF001 0x8003, EvCreateSession 0 0x11 0x12,
          EvCreateThread 0x11 0 0x13, EvStartThread 0x13 0, EvSendSyncRequest 0x12 0,
          EvReplyAndReceive 0x11 0 0x8003, EvCloseHandle 0x11, EvExitThread, EvCloseHandle 0x12,
          EvWaitSynchronizationSingle 0x13 0, EvCloseHandle 0x13],
        s_Handle = 0x8003, s_SocType = Erista\<rparr>)"
proof -
  let ?K = "synthetic_kernel [] 0xF001 0x8003 0"
  let ?F = "synthetic_kernel [] 0 0x8003 0"
  have k: "hands_out_handles ?K"
    by (simp add: hands_out_handles_def synthetic_kernel_def R_FAILED_def INVALID_HANDLE_def)
  have f: "hands_out_handles ?F"
    by (simp add: hands_out_handles_def synthetic_kernel_def R_FAILED_def INVALID_HANDLE_def)
  have fast: "Get ?F world0
     = Inr (0x8003, \<lparr>trace = [EvGetInfo 65001 0 0 0 0x8003],
                      s_Handle = 0x8003, s_SocType = Erista\<rparr>)"
    using Get_twice [OF f, of world0, THEN conjunct2, THEN conjunct1, rule_format,
        of 0 "0x8003"]
    by (simp add: synthetic_kernel_def world0_def emit_def R_FAILED_def INVALID_HANDLE_def
        InfoType_MesosphereCurrentProcess_def)
  have first: "Get ?K world0
     = Inr (0x8003, \<lparr>trace = [EvGetInfo 65001 0 0 0xF001 0x8003, EvCreateSession 0 0x11 0x12,
          EvCreateThread 0x11 0 0x13, EvStartThread 0x13 0, EvSendSyncRequest 0x12 0,
          EvReplyAndReceive 0x11 0 0x8003, EvCloseHandle 0x11, EvExitThread, EvCloseHandle 0x12,
          EvWaitSynchronizationSingle 0x13 0, EvCloseHandle 0x13],
        s_Handle = 0x8003, s_SocType = Erista\<rparr>)"
    using Get_twice [OF k, of world0, THEN conjunct2, THEN conjunct2, THEN conjunct1,
        rule_format, of "0xF001" "0x8003" "0x11" "0x12" "0x13" 0 "0x8003"]
    by (simp add: synthetic_kernel_def world0_def R_FAILED_def INVALID_HANDLE_def
        InfoType_MesosphereCurrentProcess_def)
  from Get_twice [OF k, of world0, THEN conjunct2, THEN conjunct2, THEN conjunct2,
      rule_format, OF first]
  have "Get (synthetic_kernel [] 0 0x8004 0)
        \<lparr>trace = [EvGetInfo 65001 0 0 0xF001 0x8003, EvCreateSession 0 0x11 0x12,
          EvCreateThread 0x11 0 0x13, EvStartThread 0x13 0, EvSendSyncRequest 0x12 0,
          EvReplyAndReceive 0x11 0 0x8003, EvCloseHandle 0x11, EvExitThread, EvCloseHandle 0x12,
          EvWaitSynchronizationSingle 0x13 0, EvCloseHandle 0x13],
        s_Handle = 0x8003, s_SocType = Erista\<rparr>
     = Inr (0x8003, \<lparr>trace = [EvGetInfo 65001 0 0 0xF001 0x8003, EvCreateSession 0 0x11 0x12,
          EvCreateThread 0x11 0 0x13, EvStartThread 0x13 0, EvSendSyncRequest 0x12 0,
          EvReplyAndReceive 0x11 0 0x8003, EvCloseHandle 0x11, EvExitThread, EvCloseHandle 0x12,
          EvWaitSynchronizationSingle 0x13 0, EvCloseHandle 0x13],
        s_Handle = 0x8003, s_SocType = Erista\<rparr>)"
    by blast
  with k f fast first show ?thesis by blast
qed

subsection \<open>C1: the walk partitions the range into the parts of its blocks\<close>

text \<open>
  C1, as stated, fails for an empty range: no block has a byte in common with a range
  of length 0, yet the walk queries the block that holds the start address and invokes
  its callback once, with length 0.
\<close>

theorem walk_empty_range:
  "covers 0x7100000000 0 example_blocks
   \<and> filter (meets 0x7100000000 0) example_blocks = []
   \<and> ForEachMemRange example_kernel (map_callback example_kernel 0x2000000000 0x8003)
        0x7100000000 0 world0
      = Some (Inr \<lparr>trace =
          [EvQueryMemory 0x7100000000 0 \<lparr>addr = 0x7100000000, size' = 0x2000\<rparr>,
           EvMapProcessMemory 0x2000000000 0x8003 0x7100000000 0 0],
          s_Handle = 0, s_SocType = Erista\<rparr>)"
proof -
  have c: "covers 0x7100000000 0 example_blocks"
    by (simp add: covers_def example_chain) (simp add: example_blocks_def holds_def block_end_def)
  have m: "filter (meets 0x7100000000 0) example_blocks = []"
    by (simp add: example_blocks_def meets_def)
  have v: "visited (0x7100000000 + 0) example_blocks = [\<lparr>addr = 0x7100000000, size' = 0x2000\<rparr>]"
    by (simp add: example_blocks_def block_end_def)
  have "ForEachMemRange example_kernel (map_callback example_kernel 0x2000000000 0x8003)
        0x7100000000 0 world0
      = Some (Inr \<lparr>trace =
          [EvQueryMemory 0x7100000000 0 \<lparr>addr = 0x7100000000, size' = 0x2000\<rparr>,
           EvMapProcessMemory 0x2000000000 0x8003 0x7100000000 0 0],
          s_Handle = 0, s_SocType = Erista\<rparr>)"
    unfolding walk_follows_chain [OF c example_reports] v
    by (simp add: piece_def block_end_def map_callback_def example_kernel_def
        synthetic_kernel_def emit_def world0_def R_FAILED_def INVALID_HANDLE_def)
  with c m show ?thesis by simp
qed

text \<open>
  C1 (amended). Let the blocks \<open>bs\<close> be a chain that covers the range of \<open>length'\<close> bytes
  at \<open>start_address\<close>, and let the environment report them. Then, for every callback and
  every state, the walk returns, and what it has done is one query and one callback
  invocation for each block from the first one up to the first block that ends at or
  after the end of the range, in order, the callback being given the part of the range
  inside the block (address, length and offset) and the walk stopping where the callback
  panics. For a range that is not empty these blocks are exactly the blocks that have a
  byte in common with the range. The parts tile the range: the first starts at offset 0,
  each one starts where the one before ends, and the last ends at \<open>length'\<close>. The walk stops
  by the end address of the block just queried: every visited block but the last ends
  before the end of the range, the last one at or after it. The example after the
  theorem is the 3-page range reported as blocks of 0x2000 and 0x1000 bytes (followed by
  a third block, which is not visited): two map calls, of lengths 0x2000 and 0x1000 at
  offsets 0 and 0x2000.
\<close>

theorem walk_partitions_range:
  assumes c: "covers start_address length' bs" and r: "reports K bs"
  shows "ForEachMemRange K cb start_address length' w
           = Some (run_callbacks cb start_address (start_address + length') start_address
                     (visited (start_address + length') bs) w)
       \<and> (0 < length' \<longrightarrow>
            visited (start_address + length') bs = filter (meets start_address length') bs)
       \<and> tiled start_address 0 (unat length')
            (map (piece start_address (start_address + length'))
               (visited (start_address + length') bs))
       \<and> visited (start_address + length') bs \<noteq> []
       \<and> (\<forall>b\<in>set (butlast (visited (start_address + length') bs)).
             block_end b < start_address + length')
       \<and> start_address + length' \<le> block_end (last (visited (start_address + length') bs))"
proof -
  let ?s = start_address and ?l = length'
  from c obtain b bs' where bs: "bs = b # bs'" by (cases bs) (auto simp: covers_def)
  from c have ch: "chain (b # bs')" and hb: "holds b ?s"
    and le: "unat ?s + unat ?l \<le> unat (block_end (last (b # bs')))"
    by (simp_all add: covers_def bs)
  have ok: "block_ok b" using ch by (rule chain_head_ok)
  have "unat ?s + unat ?l < 2 ^ 64"
    using le unat_lt_64 [of "block_end (last (b # bs'))"] by simp
  then have e: "unat (?s + ?l) = unat ?s + unat ?l"
    by (simp add: unat_word_ariths)
  have ab: "unat (addr b) \<le> unat ?s" and sb: "unat ?s < unat (block_end b)"
    using hb unat_block_end [OF ok] by (simp_all add: holds_def word_le_nat_alt)
  have 1: "ForEachMemRange K cb ?s ?l w
      = Some (run_callbacks cb ?s (?s + ?l) ?s (visited (?s + ?l) bs) w)"
    using c r by (rule walk_follows_chain)
  have 2: "visited (?s + ?l) bs = filter (meets ?s ?l) bs" if "0 < ?l"
  proof -
    from that have "0 < unat ?l" by (simp add: unat_gt_0 word_neq_0_conv)
    with ab have "max (unat (addr b)) (unat ?s) < unat ?s + unat ?l" by simp
    from visited_meets [OF ch this sb e] show ?thesis by (simp add: bs)
  qed
  have "tiled ?s 0 (unat (?s + ?l) - unat ?s) (map (piece ?s (?s + ?l)) (visited (?s + ?l) (b # bs')))"
    by (rule tiled_chain [OF ch]) (use ab sb le e in simp_all)
  then have 3: "tiled ?s 0 (unat ?l) (map (piece ?s (?s + ?l)) (visited (?s + ?l) bs))"
    by (simp add: e bs)
  have "?s + ?l \<le> block_end (last bs)"
    using le e by (simp add: word_le_nat_alt bs)
  with c have 4: "visited (?s + ?l) bs \<noteq> []
       \<and> (\<forall>b\<in>set (butlast (visited (?s + ?l) bs)). block_end b < ?s + ?l)
       \<and> ?s + ?l \<le> block_end (last (visited (?s + ?l) bs))"
    by (intro visited_stops) (simp_all add: covers_def)
  from 1 2 3 4 show ?thesis by blast
qed

theorem walk_partitions_range_witness:
  "covers 0x7100000000 0x3000 example_blocks \<and> reports example_kernel example_blocks
   \<and> ForEachMemRange example_kernel (map_callback example_kernel 0x2000000000 0x8003)
        0x7100000000 0x3000 world0
      = Some (Inr \<lparr>trace =
          [EvQueryMemory 0x7100000000 0 \<lparr>addr = 0x7100000000, size' = 0x2000\<rparr>,
           EvMapProcessMemory 0x2000000000 0x8003 0x7100000000 0x2000 0,
           EvQueryMemory 0x7100002000 0 \<lparr>addr = 0x7100002000, size' = 0x1000\<rparr>,
           EvMapProcessMemory 0x2000002000 0x8003 0x7100002000 0x1000 0],
          s_Handle = 0, s_SocType = Erista\<rparr>)
   \<and> filter (meets 0x7100000000 0x3000) example_blocks
      = [\<lparr>addr = 0x7100000000, size' = 0x2000\<rparr>, \<lparr>addr = 0x7100002000, size' = 0x1000\<rparr>]
   \<and> map (piece 0x7100000000 0x7100003000)
        [\<lparr>addr = 0x7100000000, size' = 0x2000\<rparr>, \<lparr>addr = 0x7100002000, size' = 0x1000\<rparr>]
      = [(0x7100000000, 0x2000, 0), (0x7100002000, 0x1000, 0x2000)]"
proof -
  have c: "covers 0x7100000000 0x3000 example_blocks"
    by (simp add: covers_def example_chain) (simp add: example_blocks_def holds_def block_end_def)
  have v: "visited (0x7100000000 + 0x3000) example_blocks
      = [\<lparr>addr = 0x7100000000, size' = 0x2000\<rparr>, \<lparr>addr = 0x7100002000, size' = 0x1000\<rparr>]"
    by (simp add: example_blocks_def block_end_def)
  have p: "map (piece 0x7100000000 0x7100003000)
        [\<lparr>addr = 0x7100000000, size' = 0x2000\<rparr>, \<lparr>addr = 0x7100002000, size' = 0x1000\<rparr>]
      = [(0x7100000000, 0x2000, 0), (0x7100002000, 0x1000, 0x2000)]"
    by (simp add: piece_def block_end_def)
  from walk_partitions_range [OF c example_reports,
      of "map_callback example_kernel 0x2000000000 0x8003" world0]
  show ?thesis
    unfolding v using c example_reports p
    by (simp add: piece_def block_end_def map_callback_def example_kernel_def
        synthetic_kernel_def emit_def world0_def R_FAILED_def INVALID_HANDLE_def)
qed

subsection \<open>C2: a mirror that is returned has been verified\<close>

text \<open>
  C2, as stated, fails for two of the kernel operations of the construction. The result of
  \<open>svcSendSyncRequest\<close> is not looked at, and a failed \<open>svcGetInfo\<close> query is answered by
  the fallback. With a kernel whose \<open>svcGetInfo\<close> and \<open>svcSendSyncRequest\<close> both fail
  while the other calls succeed, the constructor returns a claim instead of taking the
  panic path.
\<close>

theorem ctor_returns_after_failed_calls:
  "R_FAILED 0xF001 \<and> R_FAILED 0xE01
   \<and> RwPages_ctor flaky_kernel 0x7100001FF8 0x10 world0
       = Some (Inr (example_mirror,
                    \<lparr>trace = flaky_trace, s_Handle = 0x8003, s_SocType = Erista\<rparr>))
   \<and> EvGetInfo 65001 0 0 0xF001 0x8003 \<in> set flaky_trace
   \<and> EvSendSyncRequest 0x12 0xE01 \<in> set flaky_trace"
proof -
  have c: "covers (ALIGN_DOWN 0x7100001FF8 PAGE_SIZE)
      (GetAlignedSize \<lparr>m_Ro = 0x7100001FF8, m_Rw = 0, m_Size = 0x10, m_RwReserve = 0\<rparr>)
      example_blocks"
    using example_covers by (simp add: example_aligned)
  have k: "virtmemFindAslr flaky_kernel t n g = 0x2000000000"
    "virtmemAddReservation flaky_kernel t x n = 0x10"
    "svcGetInfo flaky_kernel t ty h sub = (0xF001, 0x8003)"
    "svcCreateSession flaky_kernel t = (0, 0x11, 0x12)"
    "svcCreateThread flaky_kernel t h = (0, 0x13)"
    "svcStartThread flaky_kernel t h = 0"
    "svcSendSyncRequest flaky_kernel t h = 0xE01"
    "svcReplyAndReceive flaky_kernel t h = (0, 0x8003)"
    "svcWaitSynchronizationSingle flaky_kernel t h = 0"
    "svcMapProcessMemory flaky_kernel t rw h ro n = 0"
    for t n g x ty h sub rw ro
    by (simp_all add: flaky_kernel_def synthetic_kernel_def)
  have run: "RwPages_ctor flaky_kernel 0x7100001FF8 0x10 world0
       = Some (Inr (example_mirror,
                    \<lparr>trace = flaky_trace, s_Handle = 0x8003, s_SocType = Erista\<rparr>))"
    using ctor_total [OF c flaky_reports, of world0] flaky_memory [unfolded flaky_trace_def]
    by (simp add: Let_def example_aligned example_visited example_visited [simplified] k Get_def GetViaMesosphere_def
        GetViaIpcTrick_def ReceiveProcessHandleThreadMain_def piece_def block_end_def
        emit_def world0_def R_FAILED_def INVALID_HANDLE_def
        InfoType_MesosphereCurrentProcess_def flaky_trace_def example_mirror_def)
  show ?thesis
    using run by (simp add: R_FAILED_def flaky_trace_def)
qed

text \<open>
  C2 (amended). A run of the constructor that ends either panics, or returns a claim that
  is fully formed (it is the owner, holds \<open>ro\<close>, \<open>size\<close> and a reservation that is not
  null) and whose \<open>size\<close> bytes at \<open>rw\<close> equal, in the memory of that moment, the \<open>size\<close>
  bytes at \<open>ro\<close>. No call whose result the constructor checks has failed on the way (the
  allocator found an address, the reservation was made, every query and every map call
  succeeded), and at least one map call was made. There is no third outcome: a failure of
  such a call or a mismatch never yields a claim or an error value.

  Let the blocks \<open>bs\<close> be a chain that covers the aligned range, and let the environment
  report them. Then the constructor returns, and its result is fixed by the answers of
  the environment: a panic when the allocator answers 0, a panic when the reservation is
  null, the panic of the handle lookup if it panics; then one query and one
  \<open>svcMapProcessMemory\<close> call for each block of the range in order, each at the same
  offset in the mirror as in the source, with a panic at the first call that fails; and
  last, a panic when the bytes at \<open>rw\<close> differ from the bytes at \<open>ro\<close>, the claim
  otherwise.
\<close>

theorem ctor_panics_or_mirrors:
  "(\<forall>r. RwPages_ctor K ro sz w = Some r \<longrightarrow>
      (\<exists>msg wp. r = Inl (Panic msg wp))
      \<or> (\<exists>this w' evs. r = Inr (this, w')
            \<and> m_Owner this \<and> m_Ro (m_Claim this) = ro \<and> m_Size (m_Claim this) = sz
            \<and> m_RwReserve (m_Claim this) \<noteq> 0
            \<and> bytes_at (memory K (trace w')) ro sz
                = bytes_at (memory K (trace w')) (m_Rw (m_Claim this)) sz
            \<and> (\<forall>k<unat sz. memory K (trace w') (ro + of_nat k)
                              = memory K (trace w') (m_Rw (m_Claim this) + of_nat k))
            \<and> trace w' = trace w @ evs \<and> (\<exists>ev\<in>set evs. is_map ev)
            \<and> (\<forall>ev\<in>set evs. \<not> fatal_failure ev)))
   \<and> (covers (ALIGN_DOWN ro PAGE_SIZE)
          (GetAlignedSize \<lparr>m_Ro = ro, m_Rw = 0, m_Size = sz, m_RwReserve = 0\<rparr>) bs
        \<and> reports K bs \<longrightarrow>
       (let asz = GetAlignedSize \<lparr>m_Ro = ro, m_Rw = 0, m_Size = sz, m_RwReserve = 0\<rparr>;
            aro = ALIGN_DOWN ro PAGE_SIZE;
            arw = virtmemFindAslr K (trace w) asz 0;
            w1 = emit (EvFindAslr asz 0 arw) w;
            rsv = virtmemAddReservation K (trace w1) arw asz;
            w2 = emit (EvAddReservation arw asz rsv) w1;
            rw = arw + (ro - aro)
        in RwPages_ctor K ro sz w = Some
             (if arw = 0 then Inl (Panic ''Assertion failed: alignedRw != 0'' w1)
              else if rsv = 0 then Inl (Panic ''Assertion failed: reserve != NULL'' w2)
              else case Get K w2 of
                     Inl e \<Rightarrow> Inl e
                   | Inr (h, w3) \<Rightarrow>
                       (case block_walk (svcMapProcessMemory K) EvMapProcessMemory
                               ''svcMapProcessMemory failed.'' arw h aro (aro + asz) aro
                               (visited (aro + asz) bs) w3 of
                          Inl e \<Rightarrow> Inl e
                        | Inr w4 \<Rightarrow>
                            if bytes_at (memory K (trace w4)) ro sz
                                 = bytes_at (memory K (trace w4)) rw sz
                            then Inr (\<lparr>m_Owner = True,
                                       m_Claim = \<lparr>m_Ro = ro, m_Rw = rw, m_Size = sz,
                                                  m_RwReserve = rsv\<rparr>\<rparr>, w4)
                            else Inl (Panic
                              ''Assertion failed: memcmp((void*)claim.m_Ro, (void*)claim.m_Rw, size) == 0''
                              w4)))))"
proof (intro conjI allI impI)
  fix r assume "RwPages_ctor K ro sz w = Some r"
  then show "(\<exists>msg wp. r = Inl (Panic msg wp))
      \<or> (\<exists>this w' evs. r = Inr (this, w')
            \<and> m_Owner this \<and> m_Ro (m_Claim this) = ro \<and> m_Size (m_Claim this) = sz
            \<and> m_RwReserve (m_Claim this) \<noteq> 0
            \<and> bytes_at (memory K (trace w')) ro sz
                = bytes_at (memory K (trace w')) (m_Rw (m_Claim this)) sz
            \<and> (\<forall>k<unat sz. memory K (trace w') (ro + of_nat k)
                              = memory K (trace w') (m_Rw (m_Claim this) + of_nat k))
            \<and> trace w' = trace w @ evs \<and> (\<exists>ev\<in>set evs. is_map ev)
            \<and> (\<forall>ev\<in>set evs. \<not> fatal_failure ev))"
    by (rule ctor_returned)
next
  assume "covers (ALIGN_DOWN ro PAGE_SIZE)
          (GetAlignedSize \<lparr>m_Ro = ro, m_Rw = 0, m_Size = sz, m_RwReserve = 0\<rparr>) bs
        \<and> reports K bs"
  then have c: "covers (ALIGN_DOWN ro PAGE_SIZE)
          (GetAlignedSize \<lparr>m_Ro = ro, m_Rw = 0, m_Size = sz, m_RwReserve = 0\<rparr>) bs"
    and r: "reports K bs" by simp_all
  from ctor_total [OF c r]
  show "(let asz = GetAlignedSize \<lparr>m_Ro = ro, m_Rw = 0, m_Size = sz, m_RwReserve = 0\<rparr>;
            aro = ALIGN_DOWN ro PAGE_SIZE;
            arw = virtmemFindAslr K (trace w) asz 0;
            w1 = emit (EvFindAslr asz 0 arw) w;
            rsv = virtmemAddReservation K (trace w1) arw asz;
            w2 = emit (EvAddReservation arw asz rsv) w1;
            rw = arw + (ro - aro)
        in RwPages_ctor K ro sz w = Some
             (if arw = 0 then Inl (Panic ''Assertion failed: alignedRw != 0'' w1)
              else if rsv = 0 then Inl (Panic ''Assertion failed: reserve != NULL'' w2)
              else case Get K w2 of
                     Inl e \<Rightarrow> Inl e
                   | Inr (h, w3) \<Rightarrow>
                       (case block_walk (svcMapProcessMemory K) EvMapProcessMemory
                               ''svcMapProcessMemory failed.'' arw h aro (aro + asz) aro
                               (visited (aro + asz) bs) w3 of
                          Inl e \<Rightarrow> Inl e
                        | Inr w4 \<Rightarrow>
                            if bytes_at (memory K (trace w4)) ro sz
                                 = bytes_at (memory K (trace w4)) rw sz
                            then Inr (\<lparr>m_Owner = True,
                                       m_Claim = \<lparr>m_Ro = ro, m_Rw = rw, m_Size = sz,
                                                  m_RwReserve = rsv\<rparr>\<rparr>, w4)
                            else Inl (Panic
                              ''Assertion failed: memcmp((void*)claim.m_Ro, (void*)claim.m_Rw, size) == 0''
                              w4))))" .
qed

theorem ctor_panics_or_mirrors_witness:
  "covers (ALIGN_DOWN 0x7100001FF8 PAGE_SIZE)
      (GetAlignedSize \<lparr>m_Ro = 0x7100001FF8, m_Rw = 0, m_Size = 0x10, m_RwReserve = 0\<rparr>)
      example_blocks
   \<and> reports example_kernel example_blocks
   \<and> RwPages_ctor example_kernel 0x7100001FF8 0x10 world0
     = Some (Inr (example_mirror, \<lparr>trace = example_trace, s_Handle = 0x8003, s_SocType = Erista\<rparr>))
   \<and> bytes_at (memory example_kernel example_trace) 0x7100001FF8 0x10
       = [0xF8, 0xF9, 0xFA, 0xFB, 0xFC, 0xFD, 0xFE, 0xFF, 0, 1, 2, 3, 4, 5, 6, 7]
   \<and> bytes_at (memory example_kernel example_trace) (m_Rw (m_Claim example_mirror)) 0x10
       = bytes_at (memory example_kernel example_trace) 0x7100001FF8 0x10"
proof -
  have c: "covers (ALIGN_DOWN 0x7100001FF8 PAGE_SIZE)
      (GetAlignedSize \<lparr>m_Ro = 0x7100001FF8, m_Rw = 0, m_Size = 0x10, m_RwReserve = 0\<rparr>)
      example_blocks"
    using example_covers by (simp add: example_aligned)
  have k: "virtmemFindAslr example_kernel t n g = 0x2000000000"
    "virtmemAddReservation example_kernel t x n = 0x10"
    "svcGetInfo example_kernel t ty h sub = (0, 0x8003)"
    "svcMapProcessMemory example_kernel t rw h ro n = 0"
    for t n g x ty h sub rw ro
    by (simp_all add: example_kernel_def synthetic_kernel_def)
  note total = ctor_panics_or_mirrors [of example_kernel "0x7100001FF8" "0x10" world0 example_blocks,
      THEN conjunct2, rule_format, OF conjI [OF c example_reports]]
  have run: "RwPages_ctor example_kernel 0x7100001FF8 0x10 world0
     = Some (Inr (example_mirror, \<lparr>trace = example_trace, s_Handle = 0x8003, s_SocType = Erista\<rparr>))"
    using total example_memory [unfolded example_trace_def]
    by (simp add: Let_def example_aligned example_visited example_visited [simplified] k Get_def GetViaMesosphere_def
        piece_def block_end_def emit_def world0_def R_FAILED_def INVALID_HANDLE_def
        InfoType_MesosphereCurrentProcess_def example_trace_def example_mirror_def)
  from ctor_panics_or_mirrors [of example_kernel "0x7100001FF8" "0x10" world0 example_blocks,
      THEN conjunct1, rule_format, OF run] run c example_reports example_memory
  show ?thesis by (simp add: example_mirror_def)
qed

subsection \<open>C3: the mirror keeps offsets\<close>

text \<open>
  C3. For a claim returned by the constructor, the allocator's addresses being
  page-aligned (the spec's \<open>aligned_rw\<close> is a page-aligned base): \<open>rw\<close> has the same
  offset in its page as \<open>ro_base\<close>, that is \<open>rw - aligned_rw = ro_base - aligned_ro\<close>; for
  every \<open>k\<close> the byte \<open>ro_base + k\<close>, which the mapping sends to \<open>aligned_rw\<close> plus its
  offset from \<open>aligned_ro\<close>, is at \<open>rw + k\<close>; and every map call of the construction maps
  a part of the source to the same offset in the mirror.
\<close>

theorem ctor_preserves_offsets:
  assumes run: "RwPages_ctor K ro sz w = Some (Inr (this, w'))"
    and aligned: "\<forall>t n g. virtmemFindAslr K t n g AND (PAGE_SIZE - 1) = 0"
  shows "m_Ro (m_Claim this) = ro
       \<and> m_Rw (m_Claim this) AND (PAGE_SIZE - 1) = ro AND (PAGE_SIZE - 1)
       \<and> m_Rw (m_Claim this) - GetAlignedRw (m_Claim this) = ro - GetAlignedRo (m_Claim this)
       \<and> (\<forall>k. GetAlignedRw (m_Claim this) + ((ro + k) - GetAlignedRo (m_Claim this))
                 = m_Rw (m_Claim this) + k)
       \<and> (\<exists>evs. trace w' = trace w @ evs
             \<and> (\<forall>rw p a n rc. EvMapProcessMemory rw p a n rc \<in> set evs \<longrightarrow>
                    rw - GetAlignedRw (m_Claim this) = a - GetAlignedRo (m_Claim this)))"
proof -
  let ?c0 = "\<lparr>m_Ro = ro, m_Rw = 0, m_Size = sz, m_RwReserve = 0\<rparr>"
  let ?aro = "ALIGN_DOWN ro PAGE_SIZE"
  from run obtain arw rsv h w3 where
    arw: "arw = virtmemFindAslr K (trace w) (GetAlignedSize ?c0) 0"
    and get: "Get K (emit (EvAddReservation arw (GetAlignedSize ?c0) rsv)
         (emit (EvFindAslr (GetAlignedSize ?c0) 0 arw) w)) = Inr (h, w3)"
    and walk: "ForEachMemRange K (map_callback K arw h) ?aro (GetAlignedSize ?c0) w3 = Some (Inr w')"
    and obj: "this = \<lparr>m_Owner = True, m_Claim = \<lparr>m_Ro = ro,
               m_Rw = arw + (ro - ?aro), m_Size = sz, m_RwReserve = rsv\<rparr>\<rparr>"
    by (rule ctor_Inr)
  have al: "arw AND (PAGE_SIZE - 1) = 0" using aligned arw by simp
  have ro_c: "GetAlignedRo (m_Claim this) = ?aro" by (simp add: obj GetAlignedRo_def)
  have rw_c: "GetAlignedRw (m_Claim this) = arw"
    using ALIGN_DOWN_mirror [OF al] by (simp add: obj GetAlignedRw_def)
  have rw: "m_Rw (m_Claim this) = arw + (ro - ?aro)" by (simp add: obj)
  have off: "m_Rw (m_Claim this) AND (PAGE_SIZE - 1) = ro AND (PAGE_SIZE - 1)"
  proof -
    have "x AND (PAGE_SIZE - 1) = x - ALIGN_DOWN x PAGE_SIZE" for x
      unfolding ALIGN_DOWN_def page_mask and_not_fff by simp
    then show ?thesis
      using ALIGN_DOWN_mirror [OF al, of ro] by (simp add: rw)
  qed
  from Get_trace [OF get] obtain hs where
    hs: "trace w3 = trace w @ [EvFindAslr (GetAlignedSize ?c0) 0 arw,
                              EvAddReservation arw (GetAlignedSize ?c0) rsv] @ hs"
    and hs_ok: "\<forall>e\<in>set hs. handle_event e \<and> \<not> fatal_failure e"
    by auto
  let ?G = "\<lambda>a off ev. \<exists>l. ev = EvMapProcessMemory (arw + off) h a l 0"
  have "walk_post ?G ?aro w3 w'"
    using walk by (rule walk_events) (auto dest: map_callback_event)
  then obtain ws where ws: "trace w' = trace w3 @ ws"
    and ws_ok: "\<forall>ev\<in>set ws. (\<exists>q m. ev = EvQueryMemory q 0 m) \<or> (\<exists>off. ?G (?aro + off) off ev)"
    unfolding walk_post_def by blast
  let ?evs = "[EvFindAslr (GetAlignedSize ?c0) 0 arw,
               EvAddReservation arw (GetAlignedSize ?c0) rsv] @ hs @ ws"
  have t: "trace w' = trace w @ ?evs" using hs ws by simp
  have maps: "rw' - arw = a - ?aro" if "EvMapProcessMemory rw' p a n rc \<in> set ?evs" for rw' p a n rc
  proof -
    from that hs_ok have "EvMapProcessMemory rw' p a n rc \<in> set ws" by auto
    with ws_ok show ?thesis by auto
  qed
  show ?thesis
  proof (intro conjI)
    show "m_Ro (m_Claim this) = ro" by (simp add: obj)
    show "m_Rw (m_Claim this) AND (PAGE_SIZE - 1) = ro AND (PAGE_SIZE - 1)" by (rule off)
    show "m_Rw (m_Claim this) - GetAlignedRw (m_Claim this) = ro - GetAlignedRo (m_Claim this)"
      by (simp add: rw rw_c ro_c)
    show "\<forall>k. GetAlignedRw (m_Claim this) + ((ro + k) - GetAlignedRo (m_Claim this))
                 = m_Rw (m_Claim this) + k"
      by (simp add: rw rw_c ro_c)
    show "\<exists>evs. trace w' = trace w @ evs
             \<and> (\<forall>rw p a n rc. EvMapProcessMemory rw p a n rc \<in> set evs \<longrightarrow>
                    rw - GetAlignedRw (m_Claim this) = a - GetAlignedRo (m_Claim this))"
      unfolding rw_c ro_c using t maps by (intro exI [of _ ?evs]) blast
  qed
qed

theorem ctor_preserves_offsets_witness:
  "RwPages_ctor example_kernel 0x7100001FF8 0x10 world0
     = Some (Inr (example_mirror, \<lparr>trace = example_trace, s_Handle = 0x8003, s_SocType = Erista\<rparr>))
   \<and> (\<forall>t n g. virtmemFindAslr example_kernel t n g AND (PAGE_SIZE - 1) = 0)
   \<and> m_Rw (m_Claim example_mirror) = 0x2000000FF8
   \<and> GetAlignedRw (m_Claim example_mirror) = 0x2000000000
   \<and> GetAlignedRo (m_Claim example_mirror) = 0x7100001000
   \<and> m_Rw (m_Claim example_mirror) AND (PAGE_SIZE - 1) = 0xFF8"
proof -
  have al: "\<forall>t n g. virtmemFindAslr example_kernel t n g AND (PAGE_SIZE - 1) = 0"
    by (simp add: example_kernel_def synthetic_kernel_def PAGE_SIZE_def)
  from ctor_preserves_offsets [OF example_ctor al] example_ctor al show ?thesis
    by (simp add: example_mirror_def GetAlignedRw_def GetAlignedRo_def ALIGN_DOWN_def PAGE_SIZE_def)
qed

subsection \<open>C4: only the owner tears the mirror down\<close>

text \<open>
  C4. The destructor of a claim that is not the owner returns at once and leaves the
  state as it is: no call is made, so nothing is unmapped, flushed or released.

  Let the blocks \<open>bs\<close> be a chain that covers the aligned range of an owner, and let the
  environment report them. Then the destructor of the owner returns, and what it does is:
  one data cache flush of the \<open>size\<close> bytes at \<open>rw\<close>, one instruction cache invalidation
  of the \<open>size\<close> bytes at \<open>ro\<close>, the handle lookup, then one query and one
  \<open>svcUnmapProcessMemory\<close> call for each block of the range in order, each for the part
  of the range inside the block and at the same offset in the mirror as in the source,
  and last one release of the reservation. It panics where the handle lookup panics and at
  the first unmap call that fails, and releases the reservation otherwise.

  Whenever the destructor of the owner returns, the calls it has made are, in this order:
  the flush, the invalidation, the calls of the handle lookup (none when the handle is
  cached), the walk, which is made of successful queries and successful unmap calls (at
  least one) for the process handle, and the release of the reservation, once.
\<close>

theorem dtor_teardown:
  "(\<not> m_Owner this \<longrightarrow> RwPages_dtor K this w = Some (Inr w))
   \<and> (m_Owner this
        \<and> covers (GetAlignedRo (m_Claim this)) (GetAlignedSize (m_Claim this)) bs
        \<and> reports K bs \<longrightarrow>
       RwPages_dtor K this w = Some
         (case Get K (emit (EvICacheInvalidate (m_Ro (m_Claim this)) (m_Size (m_Claim this)))
                       (emit (EvDCacheFlush (m_Rw (m_Claim this)) (m_Size (m_Claim this))) w)) of
            Inl e \<Rightarrow> Inl e
          | Inr (h, w3) \<Rightarrow>
              (case block_walk (svcUnmapProcessMemory K) EvUnmapProcessMemory
                      ''svcUnmapProcessMemory failed.'' (GetAlignedRw (m_Claim this)) h
                      (GetAlignedRo (m_Claim this))
                      (GetAlignedRo (m_Claim this) + GetAlignedSize (m_Claim this))
                      (GetAlignedRo (m_Claim this))
                      (visited (GetAlignedRo (m_Claim this) + GetAlignedSize (m_Claim this)) bs)
                      w3 of
                 Inl e \<Rightarrow> Inl e
               | Inr w4 \<Rightarrow> Inr (emit (EvRemoveReservation (m_RwReserve (m_Claim this))) w4))))
   \<and> (m_Owner this \<longrightarrow>
        (\<forall>w'. RwPages_dtor K this w = Some (Inr w') \<longrightarrow>
           (\<exists>hs us. trace w'
                = trace w @ [EvDCacheFlush (m_Rw (m_Claim this)) (m_Size (m_Claim this)),
                             EvICacheInvalidate (m_Ro (m_Claim this)) (m_Size (m_Claim this))]
                    @ hs @ us @ [EvRemoveReservation (m_RwReserve (m_Claim this))]
              \<and> (\<forall>e\<in>set hs. handle_event e)
              \<and> (\<forall>e\<in>set us. unmap_walk_event (GetAlignedRw (m_Claim this)) (s_Handle w')
                                 (GetAlignedRo (m_Claim this)) e)
              \<and> (\<exists>e\<in>set us. is_unmap e))))"
proof (intro conjI)
  show "\<not> m_Owner this \<longrightarrow> RwPages_dtor K this w = Some (Inr w)"
    by (simp add: RwPages_dtor_def)
next
  show "m_Owner this
        \<and> covers (GetAlignedRo (m_Claim this)) (GetAlignedSize (m_Claim this)) bs
        \<and> reports K bs \<longrightarrow>
       RwPages_dtor K this w = Some
         (case Get K (emit (EvICacheInvalidate (m_Ro (m_Claim this)) (m_Size (m_Claim this)))
                       (emit (EvDCacheFlush (m_Rw (m_Claim this)) (m_Size (m_Claim this))) w)) of
            Inl e \<Rightarrow> Inl e
          | Inr (h, w3) \<Rightarrow>
              (case block_walk (svcUnmapProcessMemory K) EvUnmapProcessMemory
                      ''svcUnmapProcessMemory failed.'' (GetAlignedRw (m_Claim this)) h
                      (GetAlignedRo (m_Claim this))
                      (GetAlignedRo (m_Claim this) + GetAlignedSize (m_Claim this))
                      (GetAlignedRo (m_Claim this))
                      (visited (GetAlignedRo (m_Claim this) + GetAlignedSize (m_Claim this)) bs)
                      w3 of
                 Inl e \<Rightarrow> Inl e
               | Inr w4 \<Rightarrow> Inr (emit (EvRemoveReservation (m_RwReserve (m_Claim this))) w4)))"
  proof
    assume a: "m_Owner this
        \<and> covers (GetAlignedRo (m_Claim this)) (GetAlignedSize (m_Claim this)) bs
        \<and> reports K bs"
    then have o: "m_Owner this"
      and c: "covers (GetAlignedRo (m_Claim this)) (GetAlignedSize (m_Claim this)) bs"
      and r: "reports K bs"
      by simp_all
    from o c r show "RwPages_dtor K this w = Some
         (case Get K (emit (EvICacheInvalidate (m_Ro (m_Claim this)) (m_Size (m_Claim this)))
                       (emit (EvDCacheFlush (m_Rw (m_Claim this)) (m_Size (m_Claim this))) w)) of
            Inl e \<Rightarrow> Inl e
          | Inr (h, w3) \<Rightarrow>
              (case block_walk (svcUnmapProcessMemory K) EvUnmapProcessMemory
                      ''svcUnmapProcessMemory failed.'' (GetAlignedRw (m_Claim this)) h
                      (GetAlignedRo (m_Claim this))
                      (GetAlignedRo (m_Claim this) + GetAlignedSize (m_Claim this))
                      (GetAlignedRo (m_Claim this))
                      (visited (GetAlignedRo (m_Claim this) + GetAlignedSize (m_Claim this)) bs)
                      w3 of
                 Inl e \<Rightarrow> Inl e
               | Inr w4 \<Rightarrow> Inr (emit (EvRemoveReservation (m_RwReserve (m_Claim this))) w4)))"
      by (rule dtor_total)
  qed
next
  show "m_Owner this \<longrightarrow>
        (\<forall>w'. RwPages_dtor K this w = Some (Inr w') \<longrightarrow>
           (\<exists>hs us. trace w'
                = trace w @ [EvDCacheFlush (m_Rw (m_Claim this)) (m_Size (m_Claim this)),
                             EvICacheInvalidate (m_Ro (m_Claim this)) (m_Size (m_Claim this))]
                    @ hs @ us @ [EvRemoveReservation (m_RwReserve (m_Claim this))]
              \<and> (\<forall>e\<in>set hs. handle_event e)
              \<and> (\<forall>e\<in>set us. unmap_walk_event (GetAlignedRw (m_Claim this)) (s_Handle w')
                                 (GetAlignedRo (m_Claim this)) e)
              \<and> (\<exists>e\<in>set us. is_unmap e)))"
    using dtor_returned [of this K w] by (rule conjunct2)
qed

theorem dtor_teardown_witness:
  "\<not> m_Owner (example_mirror\<lparr>m_Owner := False\<rparr>)
   \<and> RwPages_dtor example_kernel (example_mirror\<lparr>m_Owner := False\<rparr>)
       \<lparr>trace = example_trace, s_Handle = 0x8003, s_SocType = Erista\<rparr>
     = Some (Inr \<lparr>trace = example_trace, s_Handle = 0x8003, s_SocType = Erista\<rparr>)
   \<and> m_Owner example_mirror
   \<and> covers (GetAlignedRo (m_Claim example_mirror)) (GetAlignedSize (m_Claim example_mirror))
        example_blocks
   \<and> reports example_kernel example_blocks
   \<and> RwPages_dtor example_kernel example_mirror
       \<lparr>trace = example_trace, s_Handle = 0x8003, s_SocType = Erista\<rparr>
     = Some (Inr \<lparr>trace = example_trace @
          [EvDCacheFlush 0x2000000FF8 0x10,
           EvICacheInvalidate 0x7100001FF8 0x10,
           EvQueryMemory 0x7100001000 0 \<lparr>addr = 0x7100000000, size' = 0x2000\<rparr>,
           EvUnmapProcessMemory 0x2000000000 0x8003 0x7100001000 0x1000 0,
           EvQueryMemory 0x7100002000 0 \<lparr>addr = 0x7100002000, size' = 0x1000\<rparr>,
           EvUnmapProcessMemory 0x2000001000 0x8003 0x7100002000 0x1000 0,
           EvRemoveReservation 0x10],
         s_Handle = 0x8003, s_SocType = Erista\<rparr>)"
proof -
  let ?w = "\<lparr>trace = example_trace, s_Handle = 0x8003, s_SocType = Erista\<rparr>"
  have a: "GetAlignedSize (m_Claim example_mirror) = 0x2000"
    "GetAlignedRo (m_Claim example_mirror) = 0x7100001000"
    "GetAlignedRw (m_Claim example_mirror) = 0x2000000000"
    by (simp_all add: example_mirror_def GetAlignedSize_def GetAlignedRo_def GetAlignedRw_def
        ALIGN_UP_def ALIGN_DOWN_def PAGE_SIZE_def)
  have k: "svcUnmapProcessMemory example_kernel t rw h ro n = 0" for t rw h ro n
    by (simp add: example_kernel_def synthetic_kernel_def)
  have o: "m_Owner example_mirror" by (simp add: example_mirror_def)
  have c: "covers (GetAlignedRo (m_Claim example_mirror))
      (GetAlignedSize (m_Claim example_mirror)) example_blocks"
    using example_covers by (simp add: a)
  have non: "RwPages_dtor example_kernel (example_mirror\<lparr>m_Owner := False\<rparr>) ?w = Some (Inr ?w)"
    using dtor_teardown [of "example_mirror\<lparr>m_Owner := False\<rparr>" example_kernel ?w,
        THEN conjunct1]
    by simp
  note total = dtor_teardown [of example_mirror example_kernel ?w example_blocks,
      THEN conjunct2, THEN conjunct1, rule_format, OF conjI [OF o conjI [OF c example_reports]]]
  have own: "RwPages_dtor example_kernel example_mirror ?w
     = Some (Inr \<lparr>trace = example_trace @
          [EvDCacheFlush 0x2000000FF8 0x10,
           EvICacheInvalidate 0x7100001FF8 0x10,
           EvQueryMemory 0x7100001000 0 \<lparr>addr = 0x7100000000, size' = 0x2000\<rparr>,
           EvUnmapProcessMemory 0x2000000000 0x8003 0x7100001000 0x1000 0,
           EvQueryMemory 0x7100002000 0 \<lparr>addr = 0x7100002000, size' = 0x1000\<rparr>,
           EvUnmapProcessMemory 0x2000001000 0x8003 0x7100002000 0x1000 0,
           EvRemoveReservation 0x10],
         s_Handle = 0x8003, s_SocType = Erista\<rparr>)"
    using total
    by (simp add: a k example_visited example_visited [simplified] Get_def
        piece_def block_end_def emit_def R_FAILED_def INVALID_HANDLE_def)
      (simp add: example_mirror_def)
  from non o c example_reports own show ?thesis by simp
qed

subsection \<open>C10: the body of the walk runs before the test\<close>

text \<open>
  C10. For every start address and every length, 0 included, the walk first queries the
  start address. If that query fails the walk panics there. Otherwise it invokes the
  callback on the part of the range inside the block returned, and only then looks at the
  end of the block: a panic of the callback is the result of the walk, and after a
  return of the callback the walk goes on or stops by the test. A walk that maps has
  therefore issued a map call, after the query, whenever it ends. When the length is 0
  and the block returned lies around the start address, the callback is invoked exactly
  once, at the start address with length 0 and offset 0, and its result is the result of
  the walk: the mapping walk of an empty aligned range issues one map call of length 0.
\<close>

theorem walk_runs_body_first:
  assumes q: "svcQueryMemory K (trace w) start_address = (rc, mi)"
    and p: "piece start_address (start_address + length') mi = (a, n, off)"
  shows "(R_FAILED rc \<longrightarrow>
            ForEachMemRange K cb start_address length' w
              = Some (Inl (Panic ''svcQueryMemory failed.''
                             (emit (EvQueryMemory start_address rc mi) w))))
       \<and> (\<not> R_FAILED rc \<longrightarrow>
            (\<forall>e. cb a n off (emit (EvQueryMemory start_address rc mi) w) = Inl e \<longrightarrow>
               ForEachMemRange K cb start_address length' w = Some (Inl e))
            \<and> (\<forall>w2. cb a n off (emit (EvQueryMemory start_address rc mi) w) = Inr w2 \<longrightarrow>
               ForEachMemRange K cb start_address length' w
                 = (if block_end mi < start_address + length'
                    then ForEachMemRange_loop K cb start_address (start_address + length') mi w2
                    else Some (Inr w2)))
            \<and> (\<forall>r. ForEachMemRange K (map_callback K alignedRw h) start_address length' w = Some r
                  \<longrightarrow> (\<exists>rc' evs. result_trace r
                         = trace w @ [EvQueryMemory start_address rc mi,
                                      EvMapProcessMemory (alignedRw + off) h a n rc'] @ evs))
            \<and> (length' = 0 \<and> addr mi \<le> start_address \<and> start_address \<le> block_end mi \<longrightarrow>
                 (a, n, off) = (start_address, 0, 0)
                 \<and> ForEachMemRange K cb start_address length' w
                     = Some (cb start_address 0 0 (emit (EvQueryMemory start_address rc mi) w))))"
proof (intro conjI allI impI)
  let ?w1 = "emit (EvQueryMemory start_address rc mi) w"
  let ?e = "start_address + length'"
  { assume "R_FAILED rc"
    then show "ForEachMemRange K cb start_address length' w
        = Some (Inl (Panic ''svcQueryMemory failed.'' ?w1))"
      by (simp add: walk_first_iteration q) }
  assume ok: "\<not> R_FAILED rc"
  have first: "ForEachMemRange K cb' start_address length' w
      = (case cb' a n off ?w1 of
           Inl e \<Rightarrow> Some (Inl e)
         | Inr w2 \<Rightarrow>
             if block_end mi < ?e then ForEachMemRange_loop K cb' start_address ?e mi w2
             else Some (Inr w2))" for cb'
    by (simp add: walk_first_iteration q ok p)
  { fix e assume "cb a n off ?w1 = Inl e"
    then show "ForEachMemRange K cb start_address length' w = Some (Inl e)"
      by (simp add: first) }
  { fix w2 assume "cb a n off ?w1 = Inr w2"
    then show "ForEachMemRange K cb start_address length' w
              = (if block_end mi < ?e then ForEachMemRange_loop K cb start_address ?e mi w2
                 else Some (Inr w2))"
      by (simp add: first) }
  { fix r assume run: "ForEachMemRange K (map_callback K alignedRw h) start_address length' w = Some r"
    let ?cb = "map_callback K alignedRw h"
    from map_callback_trace [of K alignedRw h a n off ?w1]
    obtain rc' evs where m: "result_trace (?cb a n off ?w1)
        = trace ?w1 @ EvMapProcessMemory (alignedRw + off) h a n rc' # evs"
      by blast
    have cbt: "\<forall>a l off w. \<exists>evs. result_trace (?cb a l off w) = trace w @ evs"
      using map_callback_trace [of K alignedRw h] by blast
    have "\<exists>evs'. result_trace r = trace ?w1 @ EvMapProcessMemory (alignedRw + off) h a n rc' # evs'"
    proof (cases "?cb a n off ?w1")
      case (Inl e)
      with run have "r = Inl e" by (simp add: first)
      with m Inl show ?thesis by simp
    next
      case (Inr w2)
      show ?thesis
      proof (cases "block_end mi < ?e")
        case False
        with run Inr have "r = Inr w2" by (simp add: first)
        with m Inr show ?thesis by simp
      next
        case True
        with run Inr have "ForEachMemRange_loop K ?cb start_address ?e mi w2 = Some r"
          by (simp add: first)
        from loop_trace_aux [OF this] cbt obtain evs' where "result_trace r = trace w2 @ evs'"
          by blast
        with m Inr show ?thesis by simp
      qed
    qed
    then show "\<exists>rc' evs. result_trace r
               = trace w @ [EvQueryMemory start_address rc mi,
                            EvMapProcessMemory (alignedRw + off) h a n rc'] @ evs"
      by auto }
  { assume z: "length' = 0 \<and> addr mi \<le> start_address \<and> start_address \<le> block_end mi"
    then have mx: "max (addr mi) start_address = start_address"
      and mn: "min start_address (block_end mi) = start_address"
      by (simp_all add: max_def min_def)
    from p z mx mn show pc: "(a, n, off) = (start_address, 0, 0)"
      by (simp add: piece_def)
    from z have "\<not> block_end mi < start_address + length'" by (simp add: not_less)
    with pc show "ForEachMemRange K cb start_address length' w
        = Some (cb start_address 0 0 ?w1)"
      by (simp add: first split: sum.splits) }
qed

theorem walk_runs_body_first_witness:
  "svcQueryMemory example_kernel (trace world0) 0x7100000000
     = (0, \<lparr>addr = 0x7100000000, size' = 0x2000\<rparr>)
   \<and> piece 0x7100000000 (0x7100000000 + 0) \<lparr>addr = 0x7100000000, size' = 0x2000\<rparr>
       = (0x7100000000, 0, 0)
   \<and> \<not> R_FAILED 0
   \<and> ForEachMemRange example_kernel (map_callback example_kernel 0x2000000000 0x8003)
        0x7100000000 0 world0
      = Some (Inr \<lparr>trace =
          [EvQueryMemory 0x7100000000 0 \<lparr>addr = 0x7100000000, size' = 0x2000\<rparr>,
           EvMapProcessMemory 0x2000000000 0x8003 0x7100000000 0 0],
          s_Handle = 0, s_SocType = Erista\<rparr>)"
proof -
  have q: "svcQueryMemory example_kernel (trace world0) 0x7100000000
     = (0, \<lparr>addr = 0x7100000000, size' = 0x2000\<rparr>)"
    by (simp add: example_kernel_def synthetic_kernel_def example_blocks_def holds_def)
  have p: "piece 0x7100000000 (0x7100000000 + 0) \<lparr>addr = 0x7100000000, size' = 0x2000\<rparr>
       = (0x7100000000, 0, 0)"
    by (simp add: piece_def block_end_def)
  from walk_runs_body_first [OF q p,
      where cb = "map_callback example_kernel 0x2000000000 0x8003"
        and alignedRw = "0x2000000000" and h = "0x8003"]
  show ?thesis
    using q p
    by (simp add: R_FAILED_def block_end_def map_callback_def example_kernel_def
        synthetic_kernel_def emit_def world0_def INVALID_HANDLE_def)
qed

end
